theory Spec2Isabelle
  imports Complex_Main "HOL-Library.Multiset"
begin

section \<open>Python values shared by all components\<close>

text \<open>
  Exceptions are values: a function that can raise returns \<open>py_exn + 'a\<close>, with \<open>Inl\<close>
  the exception. Every constructor below is a subclass of Python's \<open>Exception\<close>, so an
  \<open>except Exception\<close> clause catches all of them.
\<close>

datatype py_exn =
    Timeout
  | ConnectionError
  | StatusError int
  | RedisError
  | JSONDecodeError
  | UnpicklingError
  | KeyError
  | IndexError
  | TypeError
  | ValueError
  | ZeroDivisionError
  | QueueEmpty
  | OtherError

text \<open>\<open>xs[:k]\<close> for a Python int \<open>k\<close>: a negative \<open>k\<close> counts from the end.\<close>

definition py_prefix :: "'a list \<Rightarrow> int \<Rightarrow> 'a list" where
  "py_prefix xs k =
     (if 0 \<le> k then take (nat k) xs else take (nat (int (length xs) + k)) xs)"

text \<open>\<open>xs[i]\<close> for a Python int \<open>i\<close>: raises IndexError out of range.\<close>

definition py_index :: "'a list \<Rightarrow> int \<Rightarrow> py_exn + 'a" where
  "py_index xs i =
     (if 0 \<le> i \<and> i < int (length xs) then Inr (xs ! nat i)
      else if i < 0 \<and> - int (length xs) \<le> i then Inr (xs ! nat (int (length xs) + i))
      else Inl IndexError)"

text \<open>\<open>max(xs)\<close> and \<open>min(xs)\<close> on a non-empty list, as a left-to-right scan.\<close>

fun py_max :: "real list \<Rightarrow> real" where
  "py_max [] = 0"
| "py_max (x # xs) = fold max xs x"

fun py_min :: "real list \<Rightarrow> real" where
  "py_min [] = 0"
| "py_min (x # xs) = fold min xs x"

section \<open>Reranker client (worker/services/local\_reranking\_service.py)\<close>

text \<open>
  One entry of a reranker answer: the dict with keys \<open>index\<close>, \<open>score\<close>, \<open>document\<close>
  and, from the server only, \<open>raw_logit\<close>.
\<close>

record rerank_item =
  index :: int
  score :: real
  raw_logit :: "real option"
  document :: string

text \<open>
  The HTTP reply of \<open>requests.post\<close>: a status code, the body text, and what
  \<open>response.json()["results"]\<close> evaluates to (it raises on a malformed body or a missing
  key). The call itself raises \<open>Timeout\<close> or \<open>ConnectionError\<close> when the server does not
  answer; the server is a parameter of the model.
\<close>

record http_response =
  status_code :: int
  body_text :: string
  json_results :: "py_exn + rerank_item list"

type_synonym rerank_server = "string \<Rightarrow> string list \<Rightarrow> int \<Rightarrow> py_exn + http_response"

definition fallback_results :: "string list \<Rightarrow> int \<Rightarrow> rerank_item list" where
  "fallback_results documents top_k =
     map (\<lambda>(i, doc). \<lparr>index = int i, score = 0.5, raw_logit = None, document = doc\<rparr>)
         (enumerate 0 (py_prefix documents top_k))"

text \<open>The body of the \<open>try\<close> block of \<open>rerank_results\<close>, after the empty-list test.\<close>

definition rerank_request :: "rerank_server \<Rightarrow> string \<Rightarrow> string list \<Rightarrow> int \<Rightarrow> py_exn + rerank_item list" where
  "rerank_request post query documents top_k =
     (case post query documents top_k of
        Inl e \<Rightarrow> Inl e
      | Inr response \<Rightarrow>
          if status_code response \<noteq> 200 then Inl (StatusError (status_code response))
          else json_results response)"

text \<open>
  \<open>rerank_results\<close>: the three \<open>except\<close> clauses (Timeout, ConnectionError, Exception) all
  return the fallback list.
\<close>

definition rerank_results :: "rerank_server \<Rightarrow> string \<Rightarrow> string list \<Rightarrow> int \<Rightarrow> py_exn + rerank_item list" where
  "rerank_results post query documents top_k =
     (if documents = [] then Inr []
      else case rerank_request post query documents top_k of
             Inr results \<Rightarrow> Inr results
           | Inl Timeout \<Rightarrow> Inr (fallback_results documents top_k)
           | Inl ConnectionError \<Rightarrow> Inr (fallback_results documents top_k)
           | Inl e \<Rightarrow> Inr (fallback_results documents top_k))"

text \<open>
  The reading of the specification: the first \<open>min(top_k, len(documents))\<close> documents,
  in input order, each with score 0.5.
\<close>

definition spec_fallback :: "string list \<Rightarrow> int \<Rightarrow> rerank_item list" where
  "spec_fallback documents top_k =
     map (\<lambda>(i, doc). \<lparr>index = int i, score = 0.5, raw_logit = None, document = doc\<rparr>)
         (enumerate 0 (take (nat (min top_k (int (length documents)))) documents))"

text \<open>The three failure modes of the server that the claim names.\<close>

definition server_failed :: "py_exn + http_response \<Rightarrow> bool" where
  "server_failed reply =
     (case reply of
        Inl e \<Rightarrow> e = Timeout \<or> e = ConnectionError
      | Inr response \<Rightarrow> status_code response \<noteq> 200)"

section \<open>Hybrid retriever (worker/services/search\_service.py)\<close>

subsection \<open>Records\<close>

text \<open>
  The metadata dict of a chunk. The retriever reads three keys, each with
  \<open>metadata.get(key, default)\<close>, so each may be absent.
\<close>

record chunk_metadata =
  doc_id :: "string option"
  chunk_index :: "int option"
  access_level :: "int option"

record expansion_info =
  original_query :: string
  expanded_query :: string
  expansion_applied :: bool
  synonyms_added :: int

datatype result_type = Vector | Bm25 | Hybrid

text \<open>
  A result dict. Keys that a stage adds later (\<open>query_expansion\<close>, \<open>rrf_score\<close>,
  \<open>rerank_score\<close>, \<open>final_rank\<close>) are optional fields.
\<close>

record search_result =
  rid :: string
  content :: string
  metadata :: chunk_metadata
  leg_score :: real
  rtype :: result_type
  rank :: int
  query_expansion :: "expansion_info option"
  rrf_score :: "real option"
  rerank_score :: "real option"
  final_rank :: "int option"

type_synonym reranker = "string \<Rightarrow> string list \<Rightarrow> int \<Rightarrow> py_exn + rerank_item list"

subsection \<open>Reranking with adaptive thresholds (\_rerank\_results)\<close>

text \<open>
  The loop that maps each reranker answer back to the record at its \<open>index\<close>. The
  guard only tests \<open>original_index < len(results)\<close>; a negative index is read from the
  end of the list and raises IndexError below \<open>-len(results)\<close>.
\<close>

fun attach_reranked :: "search_result list \<Rightarrow> rerank_item list \<Rightarrow> search_result list
    \<Rightarrow> py_exn + search_result list" where
  "attach_reranked results [] acc = Inr acc"
| "attach_reranked results (rr # rest) acc =
     (if index rr < int (length results) then
        (case py_index results (index rr) of
           Inl e \<Rightarrow> Inl e
         | Inr result \<Rightarrow>
             attach_reranked results rest
               (acc @ [result\<lparr>rerank_score := Some (score rr),
                               final_rank := Some (int (length acc) + 1)\<rparr>]))
      else attach_reranked results rest acc)"

text \<open>The pair (HIGH\_RELEVANCE\_THRESHOLD, GENERAL\_CHAT\_THRESHOLD).\<close>

definition adaptive_thresholds :: "real \<Rightarrow> real \<Rightarrow> real \<times> real" where
  "adaptive_thresholds best_score worst_score =
     (let score_range = best_score - worst_score
      in if score_range > 2.0 then (best_score * 0.8, best_score * 0.4)
         else if score_range > 1.0 then (best_score * 0.7, best_score * 0.3)
         else (best_score - 0.1, best_score * 0.5))"

text \<open>\<open>r["rerank_score"] >= threshold\<close>; the key is present on every attached record.\<close>

definition score_at_least :: "real \<Rightarrow> search_result \<Rightarrow> bool" where
  "score_at_least threshold r =
     (case rerank_score r of Some s \<Rightarrow> s \<ge> threshold | None \<Rightarrow> False)"

text \<open>Lines 546 to 585: thresholds from the score spread, then the two filters.\<close>

definition relevance_filter :: "search_result list \<Rightarrow> py_exn + search_result list" where
  "relevance_filter all_reranked_results =
     (case those (map rerank_score all_reranked_results) of
        None \<Rightarrow> Inl KeyError
      | Some scores \<Rightarrow>
          (let best_score = (if scores \<noteq> [] then py_max scores else 0);
               worst_score = (if scores \<noteq> [] then py_min scores else 0);
               (high, general) = adaptive_thresholds best_score worst_score
           in if best_score < general then Inr []
              else (let filtered_results = filter (score_at_least high) all_reranked_results
                    in if filtered_results = [] then Inr [] else Inr filtered_results)))"

text \<open>The \<open>try\<close> block of \<open>_rerank_results\<close>.\<close>

definition rerank_and_filter :: "reranker \<Rightarrow> string \<Rightarrow> search_result list \<Rightarrow> int
    \<Rightarrow> py_exn + search_result list" where
  "rerank_and_filter rerank query results top_k =
     (case rerank query (map content results) top_k of
        Inl e \<Rightarrow> Inl e
      | Inr reranked \<Rightarrow>
          (case attach_reranked results reranked [] of
             Inl e \<Rightarrow> Inl e
           | Inr all_reranked_results \<Rightarrow>
               if all_reranked_results = [] then Inr []
               else relevance_filter all_reranked_results))"

text \<open>
  \<open>_rerank_results\<close>: any exception of the \<open>try\<close> block is answered with
  \<open>results[:top_k]\<close>.
\<close>

definition search_rerank_results :: "reranker \<Rightarrow> string \<Rightarrow> search_result list \<Rightarrow> int
    \<Rightarrow> search_result list" where
  "search_rerank_results rerank query results top_k =
     (if results = [] then []
      else case rerank_and_filter rerank query results top_k of
             Inl e \<Rightarrow> py_prefix results top_k
           | Inr filtered \<Rightarrow> filtered)"

text \<open>
  The threshold table as the specification words it, and the score of an attached
  record (0 stands for an absent key, which attached records never have).
\<close>

definition spec_high_threshold :: "real \<Rightarrow> real \<Rightarrow> real" where
  "spec_high_threshold best spread =
     (if spread > 2 then 0.8 * best else if spread > 1 then 0.7 * best else best - 0.1)"

definition spec_general_threshold :: "real \<Rightarrow> real \<Rightarrow> real" where
  "spec_general_threshold best spread =
     (if spread > 2 then 0.4 * best else if spread > 1 then 0.3 * best else 0.5 * best)"

definition rerank_score_of :: "search_result \<Rightarrow> real" where
  "rerank_score_of r = (case rerank_score r of Some s \<Rightarrow> s | None \<Rightarrow> 0)"

definition best_of :: "search_result list \<Rightarrow> real" where
  "best_of rs = Max (rerank_score_of ` set rs)"

definition range_of :: "search_result list \<Rightarrow> real" where
  "range_of rs = best_of rs - Min (rerank_score_of ` set rs)"

subsection \<open>Reciprocal rank fusion (\_rrf\_fusion)\<close>

text \<open>
  \<open>rrf_scores\<close> is a dict, which keeps its keys in insertion order: an association list
  with one pair per key. \<open>rrf_scores[k] = rrf_scores.get(k, 0) + v\<close>:
\<close>

type_synonym score_dict = "(string \<times> real) list"

fun dict_add :: "score_dict \<Rightarrow> string \<Rightarrow> real \<Rightarrow> score_dict" where
  "dict_add [] key v = [(key, 0 + v)]"
| "dict_add ((key', v') # d) key v =
     (if key' = key then (key', v' + v) # d else (key', v') # dict_add d key v)"

text \<open>The loop over the vector leg: \<open>pos\<close> is the counter (\<open>rank\<close> in the source) of \<open>enumerate\<close>.\<close>

fun rrf_vector_loop :: "real \<Rightarrow> int \<Rightarrow> nat \<Rightarrow> search_result list
    \<Rightarrow> score_dict \<times> (string \<rightharpoonup> search_result) \<Rightarrow> score_dict \<times> (string \<rightharpoonup> search_result)" where
  "rrf_vector_loop vector_weight k pos [] st = st"
| "rrf_vector_loop vector_weight k pos (result # rest) (rrf_scores, all_docs) =
     rrf_vector_loop vector_weight k (Suc pos) rest
       (dict_add rrf_scores (rid result) (vector_weight * (1 / real_of_int (k + int pos + 1))),
        all_docs(rid result \<mapsto> result))"

text \<open>The loop over the BM25 leg keeps the vector record of an id already seen.\<close>

fun rrf_bm25_loop :: "real \<Rightarrow> int \<Rightarrow> nat \<Rightarrow> search_result list
    \<Rightarrow> score_dict \<times> (string \<rightharpoonup> search_result) \<Rightarrow> score_dict \<times> (string \<rightharpoonup> search_result)" where
  "rrf_bm25_loop bm25_weight k pos [] st = st"
| "rrf_bm25_loop bm25_weight k pos (result # rest) (rrf_scores, all_docs) =
     rrf_bm25_loop bm25_weight k (Suc pos) rest
       (dict_add rrf_scores (rid result) (bm25_weight * (1 / real_of_int (k + int pos + 1))),
        (case all_docs (rid result) of
           None \<Rightarrow> all_docs(rid result \<mapsto> result)
         | Some seen \<Rightarrow> all_docs))"

text \<open>The last loop: one hybrid record per sorted pair whose id is in \<open>all_docs\<close>.\<close>

fun rrf_emit :: "(string \<rightharpoonup> search_result) \<Rightarrow> nat \<Rightarrow> score_dict \<Rightarrow> search_result list" where
  "rrf_emit all_docs position [] = []"
| "rrf_emit all_docs position ((chunk_id, s) # rest) =
     (case all_docs chunk_id of
        None \<Rightarrow> rrf_emit all_docs (Suc position) rest
      | Some result \<Rightarrow>
          result\<lparr>rtype := Hybrid, rank := int position + 1, rrf_score := Some s\<rparr>
            # rrf_emit all_docs (Suc position) rest)"

text \<open>
  \<open>1.0 / (k + rank + 1)\<close> raises ZeroDivisionError when some rank of a leg of length
  \<open>n\<close> makes the denominator zero.
\<close>

definition rrf_zero_division :: "int \<Rightarrow> nat \<Rightarrow> bool" where
  "rrf_zero_division k n = (0 \<le> - k - 1 \<and> - k - 1 < int n)"

text \<open>
  \<open>_rrf_fusion\<close>. The two loops only write local variables, so an exception in either
  has the same effect wherever it happens: the \<open>except\<close> clause returns
  \<open>vector_results\<close>. \<open>sorted(..., key, reverse=True)\<close> is stable: a stable sort on the
  negated score.
\<close>

definition rrf_fusion :: "search_result list \<Rightarrow> search_result list \<Rightarrow> real \<Rightarrow> real \<Rightarrow> int
    \<Rightarrow> search_result list" where
  "rrf_fusion vector_results bm25_results vector_weight bm25_weight k =
     (if rrf_zero_division k (length vector_results) \<or> rrf_zero_division k (length bm25_results)
      then vector_results
      else (let after_vector = rrf_vector_loop vector_weight k 0 vector_results ([], Map.empty);
                (rrf_scores, all_docs) = rrf_bm25_loop bm25_weight k 0 bm25_results after_vector;
                sorted_docs = sort_key (\<lambda>(chunk_id, s). - s) rrf_scores
            in rrf_emit all_docs 0 sorted_docs))"

text \<open>
  For the statement of the fusion rule: the sum of the contributions
  \<open>weight \<cdot> 1/(k + rank + 1)\<close> that one leg gives to a chunk id, and the score of a
  fused record.
\<close>

fun leg_contribution :: "real \<Rightarrow> int \<Rightarrow> nat \<Rightarrow> search_result list \<Rightarrow> string \<Rightarrow> real" where
  "leg_contribution w k pos [] doc = 0"
| "leg_contribution w k pos (result # rest) doc =
     (if rid result = doc then w * (1 / real_of_int (k + int pos + 1)) else 0)
       + leg_contribution w k (Suc pos) rest doc"






text \<open>
  The fusion rule in the words of the specification. The chunk ids of both legs, each
  once, in order of first appearance (vector leg first):
\<close>

primrec first_seen :: "string list \<Rightarrow> string list" where
  "first_seen [] = []"
| "first_seen (x # xs) = x # filter (\<lambda>y. y \<noteq> x) (first_seen xs)"

subsection \<open>Morphological tokenizer (\_improved\_tokenize)\<close>

text \<open>
  Texts are modelled over ASCII: \<open>\d\<close> is a decimal digit and \<open>\w\<close> a letter, a digit or
  the underscore. The lemmatizer (\<open>self.morph.parse(t)[0].normal_form\<close>, which may raise)
  and the stop-word set (a constant set of Russian lemmas) are parameters.
\<close>

definition is_digit :: "char \<Rightarrow> bool" where
  "is_digit c = (c \<in> set ''0123456789'')"

definition is_letter :: "char \<Rightarrow> bool" where
  "is_letter c = (c \<in> set ''abcdefghijklmnopqrstuvwxyzABCDEFGHIJKLMNOPQRSTUVWXYZ'')"

definition is_word_char :: "char \<Rightarrow> bool" where
  "is_word_char c = (is_letter c \<or> is_digit c \<or> c = CHR ''_'')"

definition is_space :: "char \<Rightarrow> bool" where
  "is_space c = (c \<in> {CHR '' '', CHR 0x09, CHR 0x0A, CHR 0x0B, CHR 0x0C, CHR 0x0D,
                         CHR 0x1C, CHR 0x1D, CHR 0x1E, CHR 0x1F})"

definition lower_char :: "char \<Rightarrow> char" where
  "lower_char c =
     (case map_of (zip ''ABCDEFGHIJKLMNOPQRSTUVWXYZ'' ''abcdefghijklmnopqrstuvwxyz'') c of
        Some l \<Rightarrow> l | None \<Rightarrow> c)"

definition str_lower :: "string \<Rightarrow> string" where
  "str_lower s = map lower_char s"

text \<open>\<open>s.isdigit()\<close>: non-empty and digits only.\<close>

definition isdigit :: "string \<Rightarrow> bool" where
  "isdigit s = (s \<noteq> [] \<and> list_all is_digit s)"

text \<open>
  \<open>\b\<close> between the character before a position (None at the start) and the text that
  follows: exactly one side is a word character.
\<close>

definition word_boundary :: "char option \<Rightarrow> string \<Rightarrow> bool" where
  "word_boundary prev rest =
     ((case prev of None \<Rightarrow> False | Some c \<Rightarrow> is_word_char c)
        \<noteq> (case rest of [] \<Rightarrow> False | c # cs \<Rightarrow> is_word_char c))"

text \<open>\<open>n\<close> digits at the head of a text; the rest of the text after them.\<close>

fun digits_then :: "nat \<Rightarrow> string \<Rightarrow> string option" where
  "digits_then 0 s = Some s"
| "digits_then (Suc n) [] = None"
| "digits_then (Suc n) (c # cs) = (if is_digit c then digits_then n cs else None)"

definition char_then :: "char \<Rightarrow> string \<Rightarrow> string option" where
  "char_then sep s = (case s of [] \<Rightarrow> None | c # cs \<Rightarrow> if c = sep then Some cs else None)"

text \<open>
  A matcher tells, for a position, the length of the match that starts there. The three
  patterns of the tokenizer; each has a single way to match, so backtracking cannot
  find another.
\<close>

type_synonym matcher = "char option \<Rightarrow> string \<Rightarrow> nat option"

text \<open>\<open>\b\d{4}-\d{2}-\d{2}\b\<close>\<close>

definition match_iso_date :: matcher where
  "match_iso_date prev s =
     (if \<not> word_boundary prev s then None
      else case Option.bind (Option.bind (Option.bind (Option.bind (digits_then 4 s)
                  (char_then CHR ''-'')) (digits_then 2)) (char_then CHR ''-'')) (digits_then 2) of
             None \<Rightarrow> None
           | Some rest \<Rightarrow> if word_boundary (Some CHR ''0'') rest then Some 10 else None)"

text \<open>\<open>\b\d{2}\.\d{2}\.\d{4}\b\<close>\<close>

definition match_dotted_date :: matcher where
  "match_dotted_date prev s =
     (if \<not> word_boundary prev s then None
      else case Option.bind (Option.bind (Option.bind (Option.bind (digits_then 2 s)
                  (char_then CHR ''.'')) (digits_then 2)) (char_then CHR ''.'')) (digits_then 4) of
             None \<Rightarrow> None
           | Some rest \<Rightarrow> if word_boundary (Some CHR ''0'') rest then Some 10 else None)"

text \<open>The lookahead \<open>(?:19|20)\d{2}\b\<close>.\<close>

definition year_ahead :: "string \<Rightarrow> bool" where
  "year_ahead s =
     (case s of
        c1 # c2 # rest \<Rightarrow>
          ([c1, c2] = ''19'' \<or> [c1, c2] = ''20'')
          \<and> (case digits_then 2 rest of
                 None \<Rightarrow> False
               | Some after \<Rightarrow> word_boundary (Some CHR ''0'') after)
      | _ \<Rightarrow> False)"

text \<open>\<open>\b(?!(?:19|20)\d{2}\b)\d+\.\d+\b\<close>\<close>

definition match_decimal :: matcher where
  "match_decimal prev s =
     (if \<not> word_boundary prev s \<or> year_ahead s then None
      else (let whole = takeWhile is_digit s; after_whole = dropWhile is_digit s
            in if whole = [] then None
               else case char_then CHR ''.'' after_whole of
                      None \<Rightarrow> None
                    | Some frac_on \<Rightarrow>
                        (let frac = takeWhile is_digit frac_on; rest = dropWhile is_digit frac_on
                         in if frac = [] \<or> \<not> word_boundary (Some CHR ''0'') rest then None
                            else Some (length whole + 1 + length frac))))"

text \<open>
  \<open>re.sub(pattern, repl, text)\<close>: scan from the left; where the pattern matches, write
  \<open>repl\<close> and continue after the match. \<open>skip\<close> counts the characters of a match that
  are still to be passed over.
\<close>

fun re_sub_scan :: "matcher \<Rightarrow> string \<Rightarrow> nat \<Rightarrow> char option \<Rightarrow> string \<Rightarrow> string" where
  "re_sub_scan m repl skip prev [] = []"
| "re_sub_scan m repl (Suc skip) prev (c # cs) = re_sub_scan m repl skip (Some c) cs"
| "re_sub_scan m repl 0 prev (c # cs) =
     (case m prev (c # cs) of
        Some (Suc n) \<Rightarrow> repl @ re_sub_scan m repl n (Some c) cs
      | _ \<Rightarrow> c # re_sub_scan m repl 0 (Some c) cs)"

definition re_sub :: "matcher \<Rightarrow> string \<Rightarrow> string \<Rightarrow> string" where
  "re_sub m repl text = re_sub_scan m repl 0 None text"

text \<open>\<open>re.findall(r'[\w-]+', text)\<close>: the maximal runs of word characters and hyphens.\<close>

fun findall_tokens :: "string \<Rightarrow> string \<Rightarrow> string list" where
  "findall_tokens cur [] = (if cur = [] then [] else [cur])"
| "findall_tokens cur (c # cs) =
     (if is_word_char c \<or> c = CHR ''-'' then findall_tokens (cur @ [c]) cs
      else if cur = [] then findall_tokens [] cs
      else cur # findall_tokens [] cs)"

text \<open>\<open>token.split('-')\<close> keeps empty parts.\<close>

fun split_on :: "char \<Rightarrow> string \<Rightarrow> string \<Rightarrow> string list" where
  "split_on sep cur [] = [cur]"
| "split_on sep cur (c # cs) =
     (if c = sep then cur # split_on sep [] cs else split_on sep (cur @ [c]) cs)"

text \<open>\<open>text.split()\<close>: the maximal runs of characters that are not white space.\<close>

fun split_whitespace :: "string \<Rightarrow> string \<Rightarrow> string list" where
  "split_whitespace cur [] = (if cur = [] then [] else [cur])"
| "split_whitespace cur (c # cs) =
     (if \<not> is_space c then split_whitespace (cur @ [c]) cs
      else if cur = [] then split_whitespace [] cs
      else cur # split_whitespace [] cs)"

type_synonym lemmatizer = "string \<Rightarrow> py_exn + string"

text \<open>The inner loop over the parts of a hyphenated token.\<close>

fun lemmatize_parts :: "lemmatizer \<Rightarrow> string set \<Rightarrow> string list \<Rightarrow> py_exn + string list" where
  "lemmatize_parts normal_form stop_words [] = Inr []"
| "lemmatize_parts normal_form stop_words (part # parts) =
     (if length part \<ge> 2 then
        (case normal_form part of
           Inl e \<Rightarrow> Inl e
         | Inr lemma \<Rightarrow>
             (case lemmatize_parts normal_form stop_words parts of
                Inl e \<Rightarrow> Inl e
              | Inr others \<Rightarrow>
                  if lemma \<notin> stop_words \<and> \<not> isdigit lemma then Inr (lemma # others)
                  else Inr others))
      else lemmatize_parts normal_form stop_words parts)"

text \<open>\<open>re.match(r'^\d{4}$', token)\<close>; a token holds no newline.\<close>

definition is_four_digits :: "string \<Rightarrow> bool" where
  "is_four_digits token = (length token = 4 \<and> list_all is_digit token)"

text \<open>The loop over the tokens.\<close>

fun lemmatize_tokens :: "lemmatizer \<Rightarrow> string set \<Rightarrow> string list \<Rightarrow> py_exn + string list" where
  "lemmatize_tokens normal_form stop_words [] = Inr []"
| "lemmatize_tokens normal_form stop_words (token # tokens) =
     (if length token < 2 then lemmatize_tokens normal_form stop_words tokens
      else if CHR ''-'' \<in> set token \<and> length token > 3 then
        (case lemmatize_parts normal_form stop_words (split_on CHR ''-'' [] token) of
           Inl e \<Rightarrow> Inl e
         | Inr lemmas \<Rightarrow>
             (case lemmatize_tokens normal_form stop_words tokens of
                Inl e \<Rightarrow> Inl e
              | Inr others \<Rightarrow> Inr (lemmas @ others)))
      else
        (case normal_form token of
           Inl e \<Rightarrow> Inl e
         | Inr lemma \<Rightarrow>
             (case lemmatize_tokens normal_form stop_words tokens of
                Inl e \<Rightarrow> Inl e
              | Inr others \<Rightarrow>
                  if lemma \<notin> stop_words \<and> \<not> isdigit lemma then
                    (if token \<in> set [''DATE'', ''NUMBER''] \<or> is_four_digits token
                     then Inr (token # others)
                     else Inr (lemma # others))
                  else Inr others)))"

text \<open>The text after lower-casing and the three substitutions.\<close>

definition normalize_text :: "string \<Rightarrow> string" where
  "normalize_text text =
     re_sub match_decimal ''NUMBER''
       (re_sub match_dotted_date ''DATE''
          (re_sub match_iso_date ''DATE'' (str_lower text)))"

text \<open>
  \<open>_improved_tokenize\<close>. The \<open>except\<close> clause splits the text on white space; \<open>text\<close> was
  reassigned before the lemmatizer could raise, so it is the normalized text.
\<close>

definition improved_tokenize :: "lemmatizer \<Rightarrow> string set \<Rightarrow> string \<Rightarrow> string list" where
  "improved_tokenize normal_form stop_words text =
     (case lemmatize_tokens normal_form stop_words (findall_tokens [] (normalize_text text)) of
        Inr lemmatized_tokens \<Rightarrow> lemmatized_tokens
      | Inl e \<Rightarrow>
          filter (\<lambda>token. length token > 2)
            (split_whitespace [] (str_lower (normalize_text text))))"

text \<open>
  What the morphology library answers for a token of Latin letters or digits: the token
  itself, in lower case (its number and Latin analyzers).
\<close>

definition ascii_normal_form :: lemmatizer where
  "ascii_normal_form token = Inr (str_lower token)"

section \<open>Cache store (worker/services/cache\_service.py)\<close>

text \<open>
  The report dict that \<open>hybrid_search\<close> returns and caches, with the keys the cache
  adds. Wall-clock values (\<open>search_time_ms\<close>, \<open>cached_at\<close>, \<open>cache_hit_time\<close>) and the
  embedding metrics are not modelled.
\<close>

record search_report =
  report_success :: bool
  report_query :: string
  report_access_level :: int
  vector_results_count :: nat
  bm25_results_count :: nat
  fused_results_count :: nat
  final_results_count :: nat
  report_results :: "search_result list"
  weight_vector :: real
  weight_bm25 :: real
  from_cache :: bool
  cache_ttl :: "int option"

text \<open>The BM25 structure of the \<open>rank_bm25\<close> library, built over a tokenized corpus.\<close>

datatype bm25_index = BM25Okapi "string list list"

text \<open>The dict that is pickled into the BM25 cache.\<close>

record bm25_cache_data =
  cached_bm25_index :: "bm25_index option"
  cached_docs :: "string list option"
  cached_metadatas :: "chunk_metadata list option"
  cached_ids :: "string list option"
  cached_access_level :: int
  cached_ttl :: "int option"

record search_params =
  param_top_k :: int
  param_rerank_top_k :: int
  param_vector_weight :: real
  param_bm25_weight :: real

text \<open>
  Keys. A search key is \<open>search_cache:\<close> followed by the MD5 of the canonical JSON of
  the stripped, lower-cased query, the access level and the parameters; the hash is
  taken to be free of collisions, so the key is modelled by what is hashed. A BM25 key
  is \<open>bm25_cache:index_{access_level}\<close>.
\<close>

datatype cache_key =
    SearchKey string int "search_params option"
  | Bm25Key int

text \<open>What the store holds under a key: a JSON report, a pickled index, or other text.\<close>

datatype redis_value =
    JsonReport search_report
  | PickledIndex bm25_cache_data
  | RawText string

text \<open>
  The Redis client. Each call may raise; \<open>setex\<close> and \<open>delete\<close> also return the store
  after the call. \<open>'s\<close> is the state of the store.
\<close>

record 's redis_client =
  redis_get :: "'s \<Rightarrow> cache_key \<Rightarrow> py_exn + redis_value option"
  redis_setex :: "'s \<Rightarrow> cache_key \<Rightarrow> int \<Rightarrow> redis_value \<Rightarrow> (py_exn + bool) \<times> 's"
  redis_keys :: "'s \<Rightarrow> (cache_key \<Rightarrow> bool) \<Rightarrow> py_exn + cache_key list"
  redis_delete :: "'s \<Rightarrow> cache_key list \<Rightarrow> (py_exn + int) \<times> 's"

definition search_cache_ttl :: int where "search_cache_ttl = 3600"
definition bm25_cache_ttl :: int where "bm25_cache_ttl = 7200"

text \<open>\<open>query.strip()\<close>\<close>

definition str_strip :: "string \<Rightarrow> string" where
  "str_strip s = rev (dropWhile is_space (rev (dropWhile is_space s)))"

definition generate_search_cache_key :: "string \<Rightarrow> int \<Rightarrow> search_params option \<Rightarrow> cache_key" where
  "generate_search_cache_key query level params = SearchKey (str_lower (str_strip query)) level params"

text \<open>The patterns \<open>search_cache:*\<close> and \<open>bm25_cache:*\<close>.\<close>

fun search_pattern :: "cache_key \<Rightarrow> bool" where
  "search_pattern (SearchKey q l p) = True"
| "search_pattern (Bm25Key l) = False"

fun bm25_pattern :: "cache_key \<Rightarrow> bool" where
  "bm25_pattern (SearchKey q l p) = False"
| "bm25_pattern (Bm25Key l) = True"

text \<open>\<open>if cached_data:\<close> an empty string counts as a miss.\<close>

fun truthy :: "redis_value \<Rightarrow> bool" where
  "truthy (RawText s) = (s \<noteq> [])"
| "truthy v = True"

fun json_loads :: "redis_value \<Rightarrow> py_exn + search_report" where
  "json_loads (JsonReport r) = Inr r"
| "json_loads v = Inl JSONDecodeError"

fun pickle_loads :: "redis_value \<Rightarrow> py_exn + bm25_cache_data" where
  "pickle_loads (PickledIndex d) = Inr d"
| "pickle_loads v = Inl UnpicklingError"

text \<open>\<open>ttl or default\<close>: None and 0 both give the default.\<close>

definition ttl_or :: "int option \<Rightarrow> int \<Rightarrow> int" where
  "ttl_or ttl dflt = (case ttl of None \<Rightarrow> dflt | Some t \<Rightarrow> if t = 0 then dflt else t)"

subsection \<open>Search results\<close>

text \<open>Each operation is a \<open>try\<close> block and an \<open>except Exception\<close> clause.\<close>

definition get_cached_search_results_try :: "'s redis_client \<Rightarrow> 's \<Rightarrow> string \<Rightarrow> int
    \<Rightarrow> search_params option \<Rightarrow> py_exn + search_report option" where
  "get_cached_search_results_try client s query level params =
     (case redis_get client s (generate_search_cache_key query level params) of
        Inl e \<Rightarrow> Inl e
      | Inr None \<Rightarrow> Inr None
      | Inr (Some cached_data) \<Rightarrow>
          if truthy cached_data then
            (case json_loads cached_data of
               Inl e \<Rightarrow> Inl e
             | Inr report \<Rightarrow> Inr (Some (report\<lparr>from_cache := True\<rparr>)))
          else Inr None)"

definition get_cached_search_results :: "'s redis_client \<Rightarrow> 's \<Rightarrow> string \<Rightarrow> int
    \<Rightarrow> search_params option \<Rightarrow> py_exn + search_report option" where
  "get_cached_search_results client s query level params =
     (case get_cached_search_results_try client s query level params of
        Inl e \<Rightarrow> Inr None
      | Inr r \<Rightarrow> Inr r)"

definition cache_search_results_try :: "'s redis_client \<Rightarrow> 's \<Rightarrow> string \<Rightarrow> int \<Rightarrow> search_report
    \<Rightarrow> search_params option \<Rightarrow> int option \<Rightarrow> (py_exn + bool) \<times> 's" where
  "cache_search_results_try client s query level report params ttl =
     redis_setex client s (generate_search_cache_key query level params)
       (ttl_or ttl search_cache_ttl)
       (JsonReport (report\<lparr>from_cache := False, cache_ttl := Some (ttl_or ttl search_cache_ttl)\<rparr>))"

definition cache_search_results :: "'s redis_client \<Rightarrow> 's \<Rightarrow> string \<Rightarrow> int \<Rightarrow> search_report
    \<Rightarrow> search_params option \<Rightarrow> int option \<Rightarrow> (py_exn + bool) \<times> 's" where
  "cache_search_results client s query level report params ttl =
     (case cache_search_results_try client s query level report params ttl of
        (Inl e, s') \<Rightarrow> (Inr False, s')
      | (Inr ok, s') \<Rightarrow> (Inr ok, s'))"

text \<open>\<open>pattern or default\<close>; then \<open>keys\<close>, and \<open>delete\<close> when some key matched.\<close>

definition invalidate_try :: "'s redis_client \<Rightarrow> 's \<Rightarrow> (cache_key \<Rightarrow> bool) \<Rightarrow> (py_exn + int) \<times> 's" where
  "invalidate_try client s pattern =
     (case redis_keys client s pattern of
        Inl e \<Rightarrow> (Inl e, s)
      | Inr keys \<Rightarrow> if keys \<noteq> [] then redis_delete client s keys else (Inr 0, s))"

definition invalidate_search_cache :: "'s redis_client \<Rightarrow> 's \<Rightarrow> (cache_key \<Rightarrow> bool) option
    \<Rightarrow> (py_exn + int) \<times> 's" where
  "invalidate_search_cache client s pattern =
     (case invalidate_try client s (case pattern of None \<Rightarrow> search_pattern | Some p \<Rightarrow> p) of
        (Inl e, s') \<Rightarrow> (Inr 0, s')
      | (Inr deleted, s') \<Rightarrow> (Inr deleted, s'))"

subsection \<open>BM25 index\<close>

definition get_cached_bm25_index_try :: "'s redis_client \<Rightarrow> 's \<Rightarrow> int \<Rightarrow> py_exn + bm25_cache_data option" where
  "get_cached_bm25_index_try client s level =
     (case redis_get client s (Bm25Key level) of
        Inl e \<Rightarrow> Inl e
      | Inr None \<Rightarrow> Inr None
      | Inr (Some cached_data) \<Rightarrow>
          if truthy cached_data then
            (case pickle_loads cached_data of
               Inl e \<Rightarrow> Inl e
             | Inr bm25_data \<Rightarrow> Inr (Some bm25_data))
          else Inr None)"

definition get_cached_bm25_index :: "'s redis_client \<Rightarrow> 's \<Rightarrow> int \<Rightarrow> py_exn + bm25_cache_data option" where
  "get_cached_bm25_index client s level =
     (case get_cached_bm25_index_try client s level of
        Inl e \<Rightarrow> Inr None
      | Inr r \<Rightarrow> Inr r)"

definition cache_bm25_index_try :: "'s redis_client \<Rightarrow> 's \<Rightarrow> int \<Rightarrow> bm25_cache_data \<Rightarrow> int option
    \<Rightarrow> (py_exn + bool) \<times> 's" where
  "cache_bm25_index_try client s level bm25_data ttl =
     redis_setex client s (Bm25Key level) (ttl_or ttl bm25_cache_ttl)
       (PickledIndex (bm25_data\<lparr>cached_access_level := level,
                                 cached_ttl := Some (ttl_or ttl bm25_cache_ttl)\<rparr>))"

definition cache_bm25_index :: "'s redis_client \<Rightarrow> 's \<Rightarrow> int \<Rightarrow> bm25_cache_data \<Rightarrow> int option
    \<Rightarrow> (py_exn + bool) \<times> 's" where
  "cache_bm25_index client s level bm25_data ttl =
     (case cache_bm25_index_try client s level bm25_data ttl of
        (Inl e, s') \<Rightarrow> (Inr False, s')
      | (Inr ok, s') \<Rightarrow> (Inr ok, s'))"

definition invalidate_bm25_cache_try :: "'s redis_client \<Rightarrow> 's \<Rightarrow> int option \<Rightarrow> (py_exn + int) \<times> 's" where
  "invalidate_bm25_cache_try client s level =
     (case level of
        Some l \<Rightarrow> redis_delete client s [Bm25Key l]
      | None \<Rightarrow> invalidate_try client s bm25_pattern)"

definition invalidate_bm25_cache :: "'s redis_client \<Rightarrow> 's \<Rightarrow> int option \<Rightarrow> (py_exn + int) \<times> 's" where
  "invalidate_bm25_cache client s level =
     (case invalidate_bm25_cache_try client s level of
        (Inl e, s') \<Rightarrow> (Inr 0, s')
      | (Inr deleted, s') \<Rightarrow> (Inr deleted, s'))"

text \<open>A client whose every call raises: the store is down.\<close>

definition broken_client :: "unit redis_client" where
  "broken_client =
     \<lparr>redis_get = (\<lambda>s key. Inl RedisError),
      redis_setex = (\<lambda>s key ttl v. (Inl RedisError, s)),
      redis_keys = (\<lambda>s pattern. Inl RedisError),
      redis_delete = (\<lambda>s keys. (Inl RedisError, s))\<rparr>"

section \<open>Vector-store connection pool (worker/services/connection\_pool.py)\<close>

























section \<open>Reranker server (local\_reranker\_server.py)\<close>

text \<open>
  The scores are floating-point numbers. They are modelled as reals with overflow: a
  result whose magnitude exceeds the largest finite number \<open>fmax\<close> of the format is an
  infinity, and \<open>inf - inf\<close> and \<open>inf / inf\<close> are NaN. Rounding of finite results is
  not modelled.
\<close>

datatype npfloat = Fin real | PInf | NInf | NaN

definition fl :: "real \<Rightarrow> real \<Rightarrow> npfloat" where
  "fl fmax x = (if x > fmax then PInf else if x < - fmax then NInf else Fin x)"

text \<open>The comparison \<open><\<close>: false as soon as one side is NaN.\<close>

fun fl_lt :: "npfloat \<Rightarrow> npfloat \<Rightarrow> bool" where
  "fl_lt (Fin a) (Fin b) = (a < b)"
| "fl_lt (Fin a) PInf = True"
| "fl_lt NInf (Fin b) = True"
| "fl_lt NInf PInf = True"
| "fl_lt a b = False"

fun fl_sub :: "real \<Rightarrow> npfloat \<Rightarrow> npfloat \<Rightarrow> npfloat" where
  "fl_sub fmax (Fin a) (Fin b) = fl fmax (a - b)"
| "fl_sub fmax (Fin a) PInf = NInf"
| "fl_sub fmax (Fin a) NInf = PInf"
| "fl_sub fmax PInf (Fin b) = PInf"
| "fl_sub fmax PInf NInf = PInf"
| "fl_sub fmax NInf (Fin b) = NInf"
| "fl_sub fmax NInf PInf = NInf"
| "fl_sub fmax a b = NaN"

fun fl_div :: "real \<Rightarrow> npfloat \<Rightarrow> npfloat \<Rightarrow> npfloat" where
  "fl_div fmax (Fin a) (Fin b) =
     (if b = 0 then (if a = 0 then NaN else if a > 0 then PInf else NInf) else fl fmax (a / b))"
| "fl_div fmax (Fin a) PInf = Fin 0"
| "fl_div fmax (Fin a) NInf = Fin 0"
| "fl_div fmax PInf (Fin b) = (if b < 0 then NInf else PInf)"
| "fl_div fmax NInf (Fin b) = (if b < 0 then PInf else NInf)"
| "fl_div fmax a b = NaN"

fun fl_mul :: "real \<Rightarrow> npfloat \<Rightarrow> npfloat \<Rightarrow> npfloat" where
  "fl_mul fmax (Fin a) (Fin b) = fl fmax (a * b)"
| "fl_mul fmax PInf (Fin b) = (if b = 0 then NaN else if b > 0 then PInf else NInf)"
| "fl_mul fmax NInf (Fin b) = (if b = 0 then NaN else if b > 0 then NInf else PInf)"
| "fl_mul fmax (Fin a) PInf = (if a = 0 then NaN else if a > 0 then PInf else NInf)"
| "fl_mul fmax (Fin a) NInf = (if a = 0 then NaN else if a > 0 then NInf else PInf)"
| "fl_mul fmax PInf PInf = PInf"
| "fl_mul fmax NInf NInf = PInf"
| "fl_mul fmax PInf NInf = NInf"
| "fl_mul fmax NInf PInf = NInf"
| "fl_mul fmax a b = NaN"

text \<open>\<open>np.exp(scores_array * amplification_factor)\<close> with \<open>amplification_factor = 100\<close>.\<close>

definition amplify :: "real \<Rightarrow> real \<Rightarrow> npfloat" where
  "amplify fmax raw = fl fmax (exp (raw * 100))"

text \<open>\<open>np.min\<close> and \<open>np.max\<close> of a non-empty array without NaN.\<close>

fun np_min :: "npfloat list \<Rightarrow> npfloat" where
  "np_min [] = NaN"
| "np_min (x # xs) = fold (\<lambda>y m. if fl_lt y m then y else m) xs x"

fun np_max :: "npfloat list \<Rightarrow> npfloat" where
  "np_max [] = NaN"
| "np_max (x # xs) = fold (\<lambda>y m. if fl_lt m y then y else m) xs x"

text \<open>The normalization into the range 0 to 10, and 5.0 for all when no score differs.\<close>

definition final_scores :: "real \<Rightarrow> npfloat list \<Rightarrow> npfloat list" where
  "final_scores fmax amplified_scores =
     (let min_amplified = np_min amplified_scores;
          max_amplified = np_max amplified_scores
      in if fl_lt min_amplified max_amplified
         then map (\<lambda>a. fl_mul fmax
                          (fl_div fmax (fl_sub fmax a min_amplified)
                                       (fl_sub fmax max_amplified min_amplified))
                          (Fin 10)) amplified_scores
         else map (\<lambda>a. Fin 5) amplified_scores)"

record server_item =
  item_index :: int
  item_score :: npfloat
  item_raw_logit :: real
  item_document :: string

text \<open>
  \<open>results.sort(key=score, reverse=True)\<close>: a stable sort, descending. An item goes
  behind the items that follow it only where its score is smaller. (With a NaN among
  the scores no order is defined; the model then still returns the same items.)
\<close>

fun insert_desc :: "server_item \<Rightarrow> server_item list \<Rightarrow> server_item list" where
  "insert_desc x [] = [x]"
| "insert_desc x (y # ys) =
     (if fl_lt (item_score x) (item_score y) then y # insert_desc x ys else x # y # ys)"

definition sort_desc :: "server_item list \<Rightarrow> server_item list" where
  "sort_desc xs = foldr insert_desc xs []"

text \<open>The loop over \<open>zip(scores_array, final_scores)\<close>; \<open>request.documents[i]\<close> may raise.\<close>

fun build_results :: "string list \<Rightarrow> nat \<Rightarrow> (real \<times> npfloat) list \<Rightarrow> py_exn + server_item list" where
  "build_results documents i [] = Inr []"
| "build_results documents i ((raw_score, final_score) # rest) =
     (if i < length documents then
        (case build_results documents (Suc i) rest of
           Inl e \<Rightarrow> Inl e
         | Inr items \<Rightarrow>
             Inr (\<lparr>item_index = int i, item_score = final_score, item_raw_logit = raw_score,
                   item_document = documents ! i\<rparr> # items))
      else Inl IndexError)"

text \<open>The \<open>try\<close> block of the endpoint; \<open>np.min\<close> of an empty array raises.\<close>

definition rerank_documents_try :: "real \<Rightarrow> (string \<Rightarrow> string list \<Rightarrow> py_exn + real list)
    \<Rightarrow> string \<Rightarrow> string list \<Rightarrow> int \<Rightarrow> py_exn + server_item list" where
  "rerank_documents_try fmax predict query documents top_k =
     (case predict query documents of
        Inl e \<Rightarrow> Inl e
      | Inr scores \<Rightarrow>
          if scores = [] then Inl ValueError
          else (case build_results documents 0
                       (zip scores (final_scores fmax (map (amplify fmax) scores))) of
                  Inl e \<Rightarrow> Inl e
                | Inr results \<Rightarrow> Inr (py_prefix (sort_desc results) top_k)))"

text \<open>
  The endpoint \<open>rerank_documents\<close>: status 500 without a model or after an exception, an
  empty answer for no documents.
\<close>

definition rerank_documents :: "real \<Rightarrow> bool \<Rightarrow> (string \<Rightarrow> string list \<Rightarrow> py_exn + real list)
    \<Rightarrow> string \<Rightarrow> string list \<Rightarrow> int \<Rightarrow> py_exn + server_item list" where
  "rerank_documents fmax model_loaded predict query documents top_k =
     (if \<not> model_loaded then Inl (StatusError 500)
      else if documents = [] then Inr []
      else case rerank_documents_try fmax predict query documents top_k of
             Inl e \<Rightarrow> Inl (StatusError 500)
           | Inr top_results \<Rightarrow> Inr top_results)"

text \<open>The value of a finite score, and the largest finite double.\<close>

definition score_value :: "server_item \<Rightarrow> real" where
  "score_value x = (case item_score x of Fin s \<Rightarrow> s | _ \<Rightarrow> 0)"

definition float64_max :: real where
  "float64_max = (2 - 1 / 2 ^ 52) * 2 ^ 1023"

section \<open>The retrieval service and its stores\<close>

subsection \<open>Vector store and in-memory key-value store\<close>

text \<open>
  A chunk as the vector store holds it: id, text and metadata. The embedding is part of
  the chunk for the distance function only.
\<close>

record stored_chunk =
  stored_id :: string
  stored_document :: string
  stored_metadata :: chunk_metadata

text \<open>The filter \<open>{"access_level": {"$lte": L}}\<close>: a chunk without the key does not match.\<close>

definition where_lte :: "int \<Rightarrow> stored_chunk \<Rightarrow> bool" where
  "where_lte level c =
     (case access_level (stored_metadata c) of None \<Rightarrow> False | Some a \<Rightarrow> a \<le> level)"

text \<open>
  The contract of the vector store's \<open>query\<close>: among the chunks that match the filter,
  the \<open>n_results\<close> nearest to the query embedding, nearest first, with their distances;
  it refuses \<open>n_results \<le> 0\<close>. The distance is a parameter.
\<close>

definition collection_query :: "(real list \<Rightarrow> stored_chunk \<Rightarrow> real) \<Rightarrow> stored_chunk list
    \<Rightarrow> real list \<Rightarrow> int \<Rightarrow> int \<Rightarrow> py_exn + (stored_chunk \<times> real) list" where
  "collection_query distance_of chunks embedding n_results level =
     (if n_results \<le> 0 then Inl ValueError
      else Inr (take (nat n_results)
                  (sort_key snd (map (\<lambda>c. (c, distance_of embedding c)) (filter (where_lte level) chunks)))))"

text \<open>
  The key-value store as a list of entries, newest first, with a flag that tells
  whether the server answers. Expiry of entries is not modelled.
\<close>

record redis_state =
  entries :: "(cache_key \<times> redis_value) list"
  reachable :: bool

definition mem_redis :: "redis_state redis_client" where
  "mem_redis =
     \<lparr>redis_get = (\<lambda>s key. if reachable s then Inr (map_of (entries s) key) else Inl RedisError),
      redis_setex = (\<lambda>s key ttl v.
         if \<not> reachable s \<or> ttl \<le> 0 then (Inl RedisError, s)
         else (Inr True, s\<lparr>entries := (key, v) # filter (\<lambda>e. fst e \<noteq> key) (entries s)\<rparr>)),
      redis_keys = (\<lambda>s pattern.
         if reachable s then Inr (filter pattern (map fst (entries s))) else Inl RedisError),
      redis_delete = (\<lambda>s keys.
         if reachable s
         then (Inr (int (length (filter (\<lambda>e. fst e \<in> set keys) (entries s)))),
               s\<lparr>entries := filter (\<lambda>e. fst e \<notin> set keys) (entries s)\<rparr>)
         else (Inl RedisError, s))\<rparr>"

subsection \<open>Collaborators and state of SearchService\<close>

text \<open>
  The services that \<open>SearchService\<close> calls: the embedder, the distance of the vector
  store, the query expander, the tokenizer (\<open>_improved_tokenize\<close> with its lemmatizer),
  the constructor and the scoring of the BM25 library, and the reranking service.
\<close>

record services =
  generate_query_embedding :: "string \<Rightarrow> py_exn + real list"
  ann_distance :: "real list \<Rightarrow> stored_chunk \<Rightarrow> real"
  expand_query_smart :: "string \<Rightarrow> py_exn + expansion_info"
  morph_tokenize :: "string \<Rightarrow> string list"
  bm25_okapi :: "string list list \<Rightarrow> py_exn + bm25_index"
  bm25_get_scores :: "bm25_index \<Rightarrow> string list \<Rightarrow> py_exn + real list"
  reranking_service :: reranker

text \<open>
  The attributes of the \<open>SearchService\<close> singleton, and the two stores behind it: the
  cache and the vector-store collection.
\<close>

record search_service =
  bm25 :: "bm25_index option"
  bm25_docs :: "string list option"
  bm25_ids :: "string list option"
  bm25_metadatas :: "chunk_metadata list option"
  bm25_initialized :: bool
  cache :: redis_state
  collection :: "stored_chunk list"
  chroma_reachable :: bool

definition new_search_service :: "stored_chunk list \<Rightarrow> search_service" where
  "new_search_service chunks =
     \<lparr>bm25 = None, bm25_docs = None, bm25_ids = None, bm25_metadatas = None,
      bm25_initialized = False, cache = \<lparr>entries = [], reachable = True\<rparr>,
      collection = chunks, chroma_reachable = True\<rparr>"

subsection \<open>Formatting of chunk ids\<close>

fun str_of_nat :: "nat \<Rightarrow> string" where
  "str_of_nat n =
     (if n < 10 then [''0123456789'' ! n]
      else str_of_nat (n div 10) @ [''0123456789'' ! (n mod 10)])"

definition str_of_int :: "int \<Rightarrow> string" where
  "str_of_int i = (if i < 0 then CHR ''-'' # str_of_nat (nat (- i)) else str_of_nat (nat i))"

text \<open>\<open>f"{metadata.get('doc_id', missing)}_{metadata.get('chunk_index', i)}"\<close>\<close>

definition format_chunk_id :: "string \<Rightarrow> nat \<Rightarrow> chunk_metadata \<Rightarrow> string" where
  "format_chunk_id missing i md =
     (case doc_id md of None \<Rightarrow> missing | Some d \<Rightarrow> d) @ ''_''
       @ (case chunk_index md of None \<Rightarrow> str_of_nat i | Some c \<Rightarrow> str_of_int c)"

subsection \<open>Lazy BM25 index (\_ensure\_bm25\_initialized)\<close>

text \<open>The index built from the collection; every exception ends in \<open>self.bm25 = None\<close>.\<close>

definition build_bm25 :: "services \<Rightarrow> search_service \<Rightarrow> int \<Rightarrow> search_service" where
  "build_bm25 svc st level =
     (if \<not> chroma_reachable st then st\<lparr>bm25 := None\<rparr>
      else (let all_docs = filter (where_lte level) (collection st)
            in if all_docs = [] then st\<lparr>bm25 := None\<rparr>
               else (case bm25_okapi svc (map (\<lambda>c. morph_tokenize svc (stored_document c)) all_docs) of
                       Inl e \<Rightarrow> st\<lparr>bm25 := None\<rparr>
                     | Inr built \<Rightarrow>
                         (let docs = map stored_document all_docs;
                              metadatas = map stored_metadata all_docs;
                              ids = map (\<lambda>(i, md). format_chunk_id (''unknown_'' @ str_of_nat i) i md)
                                        (enumerate 0 metadatas);
                              bm25_cache_data =
                                \<lparr>cached_bm25_index = Some built, cached_docs = Some docs,
                                 cached_metadatas = Some metadatas, cached_ids = Some ids,
                                 cached_access_level = level, cached_ttl = None\<rparr>;
                              stored = cache_bm25_index mem_redis (cache st) level bm25_cache_data None
                          in st\<lparr>bm25 := Some built, bm25_docs := Some docs,
                                bm25_metadatas := Some metadatas, bm25_ids := Some ids,
                                cache := snd stored, bm25_initialized := True\<rparr>))))"

text \<open>\<open>cached.get(key, [])\<close>\<close>

definition get_or_empty :: "'a list option \<Rightarrow> 'a list" where
  "get_or_empty v = (case v of None \<Rightarrow> [] | Some xs \<Rightarrow> xs)"

definition ensure_bm25_initialized :: "services \<Rightarrow> search_service \<Rightarrow> int \<Rightarrow> search_service" where
  "ensure_bm25_initialized svc st level =
     (if bm25_initialized st then st
      else case get_cached_bm25_index mem_redis (cache st) level of
             Inl e \<Rightarrow> st\<lparr>bm25 := None\<rparr>
           | Inr (Some cached_bm25) \<Rightarrow>
               st\<lparr>bm25 := cached_bm25_index cached_bm25,
                   bm25_docs := Some (get_or_empty (cached_docs cached_bm25)),
                   bm25_metadatas := Some (get_or_empty (cached_metadatas cached_bm25)),
                   bm25_ids := Some (get_or_empty (cached_ids cached_bm25)),
                   bm25_initialized := True\<rparr>
           | Inr None \<Rightarrow> build_bm25 svc st level)"

subsection \<open>The two legs\<close>

definition vector_hit :: "nat \<times> stored_chunk \<times> real \<Rightarrow> search_result" where
  "vector_hit h =
     (case h of (i, c, distance) \<Rightarrow>
        \<lparr>rid = format_chunk_id ''unknown'' i (stored_metadata c),
         content = stored_document c, metadata = stored_metadata c,
         leg_score = 1 - distance, rtype = Vector, rank = int i + 1,
         query_expansion = None, rrf_score = None, rerank_score = None, final_rank = None\<rparr>)"

text \<open>
  \<open>_vector_search\<close> with \<open>query_chromadb\<close>: no client from the pool, or an exception of
  the embedder or of the store, gives the empty list.
\<close>

definition vector_search :: "services \<Rightarrow> search_service \<Rightarrow> string \<Rightarrow> int \<Rightarrow> int \<Rightarrow> search_result list" where
  "vector_search svc st query level top_k =
     (case generate_query_embedding svc query of
        Inl e \<Rightarrow> []
      | Inr query_embedding \<Rightarrow>
          if \<not> chroma_reachable st then []
          else (case collection_query (ann_distance svc) (collection st) query_embedding top_k level of
                  Inl e \<Rightarrow> []
                | Inr hits \<Rightarrow> map vector_hit (enumerate 0 hits)))"

text \<open>
  The loop of \<open>_bm25_search\<close> over \<open>enumerate(scores)\<close>. \<open>len(None)\<close> and \<open>None[i]\<close> raise
  TypeError, an index past the end of \<open>bm25_ids\<close> or \<open>bm25_docs\<close> IndexError.
\<close>

fun bm25_collect :: "search_service \<Rightarrow> int \<Rightarrow> expansion_info \<Rightarrow> nat \<Rightarrow> real list
    \<Rightarrow> search_result list \<Rightarrow> py_exn + search_result list" where
  "bm25_collect st level info i [] bm25_results = Inr bm25_results"
| "bm25_collect st level info i (s # scores) bm25_results =
     (case bm25_metadatas st of
        None \<Rightarrow> Inl TypeError
      | Some metadatas \<Rightarrow>
          if i < length metadatas
             \<and> (case access_level (metadatas ! i) of None \<Rightarrow> 0 | Some a \<Rightarrow> a) \<le> level
          then (case (bm25_ids st, bm25_docs st) of
                  (Some ids, Some docs) \<Rightarrow>
                    if i < length ids \<and> i < length docs then
                      bm25_collect st level info (Suc i) scores
                        (bm25_results @
                           [\<lparr>rid = ids ! i, content = docs ! i, metadata = metadatas ! i,
                             leg_score = s, rtype = Bm25, rank = int (length bm25_results) + 1,
                             query_expansion = Some info, rrf_score = None,
                             rerank_score = None, final_rank = None\<rparr>])
                    else Inl IndexError
                | _ \<Rightarrow> Inl TypeError)
          else bm25_collect st level info (Suc i) scores bm25_results)"

definition bm25_search_try :: "services \<Rightarrow> search_service \<Rightarrow> string \<Rightarrow> int \<Rightarrow> int
    \<Rightarrow> py_exn + search_result list" where
  "bm25_search_try svc st query level top_k =
     (case bm25 st of
        None \<Rightarrow> Inr []
      | Some built \<Rightarrow>
          (case expand_query_smart svc query of
             Inl e \<Rightarrow> Inl e
           | Inr expansion_result \<Rightarrow>
               (case bm25_get_scores svc built (morph_tokenize svc (expanded_query expansion_result)) of
                  Inl e \<Rightarrow> Inl e
                | Inr scores \<Rightarrow>
                    (case bm25_collect st level (expansion_result\<lparr>original_query := query\<rparr>) 0 scores [] of
                       Inl e \<Rightarrow> Inl e
                     | Inr bm25_results \<Rightarrow>
                         Inr (py_prefix (sort_key (\<lambda>r. - leg_score r) bm25_results) top_k)))))"

definition bm25_search :: "services \<Rightarrow> search_service \<Rightarrow> string \<Rightarrow> int \<Rightarrow> int \<Rightarrow> search_result list" where
  "bm25_search svc st query level top_k =
     (case bm25_search_try svc st query level top_k of Inl e \<Rightarrow> [] | Inr found \<Rightarrow> found)"

subsection \<open>hybrid\_search and reinitialize\_bm25\<close>

definition hybrid_search :: "services \<Rightarrow> search_service \<Rightarrow> string \<Rightarrow> int \<Rightarrow> int \<Rightarrow> int \<Rightarrow> real \<Rightarrow> real
    \<Rightarrow> search_report \<times> search_service" where
  "hybrid_search svc st query level top_k rerank_top_k vector_weight bm25_weight =
     (let search_params = Some \<lparr>param_top_k = top_k, param_rerank_top_k = rerank_top_k,
                                  param_vector_weight = vector_weight,
                                  param_bm25_weight = bm25_weight\<rparr>
      in case get_cached_search_results mem_redis (cache st) query level search_params of
           Inr (Some cached_result) \<Rightarrow> (cached_result, st)
         | _ \<Rightarrow>
           (let st1 = ensure_bm25_initialized svc st level;
                vector_results = vector_search svc st1 query level top_k;
                bm25_results = bm25_search svc st1 query level top_k;
                fused_results = rrf_fusion vector_results bm25_results vector_weight bm25_weight 60;
                reranked_results =
                  (if length fused_results > 0 \<and> rerank_top_k > 0
                   then search_rerank_results (reranking_service svc) query fused_results rerank_top_k
                   else py_prefix fused_results rerank_top_k);
                report =
                  \<lparr>report_success = True, report_query = query, report_access_level = level,
                   vector_results_count = length vector_results,
                   bm25_results_count = length bm25_results,
                   fused_results_count = length fused_results,
                   final_results_count = length reranked_results,
                   report_results = reranked_results,
                   weight_vector = vector_weight, weight_bm25 = bm25_weight,
                   from_cache = False, cache_ttl = None\<rparr>;
                stored = cache_search_results mem_redis (cache st1) query level report search_params None
            in (report, st1\<lparr>cache := snd stored\<rparr>)))"


text \<open>
  The access predicate of the claims, and the invariant of the service: every cached
  report was computed for the level in its key, and the metadata of every indexed chunk
  carries an access level.
\<close>

definition has_access :: "int \<Rightarrow> search_result \<Rightarrow> bool" where
  "has_access level r =
     (case access_level (metadata r) of None \<Rightarrow> False | Some a \<Rightarrow> a \<le> level)"

definition levelled :: "chunk_metadata list \<Rightarrow> bool" where
  "levelled metadatas = list_all (\<lambda>md. access_level md \<noteq> None) metadatas"

fun entry_ok :: "cache_key \<times> redis_value \<Rightarrow> bool" where
  "entry_ok (SearchKey q level params, JsonReport report) =
     list_all (has_access level) (report_results report)"
| "entry_ok (Bm25Key level, PickledIndex d) = levelled (get_or_empty (cached_metadatas d))"
| "entry_ok e = True"

definition service_inv :: "search_service \<Rightarrow> bool" where
  "service_inv st =
     (list_all entry_ok (entries (cache st)) \<and> levelled (get_or_empty (bm25_metadatas st)))"

section \<open>Concrete inputs used by the witnesses\<close>

definition demo_chunk :: "string \<Rightarrow> int \<Rightarrow> result_type \<Rightarrow> int \<Rightarrow> search_result" where
  "demo_chunk name level leg position =
     \<lparr>rid = name, content = name,
      metadata = \<lparr>doc_id = Some name, chunk_index = Some 0, access_level = Some level\<rparr>,
      leg_score = 1, rtype = leg, rank = position, query_expansion = None,
      rrf_score = None, rerank_score = None, final_rank = None\<rparr>"

definition demo_results :: "search_result list" where
  "demo_results = [demo_chunk ''a'' 1 Hybrid 1, demo_chunk ''b'' 1 Hybrid 2, demo_chunk ''c'' 1 Hybrid 3]"

definition demo_reranked :: "rerank_item list" where
  "demo_reranked =
     [\<lparr>index = 1, score = 10, raw_logit = Some 0.5, document = ''b''\<rparr>,
      \<lparr>index = 0, score = 9, raw_logit = Some 0.4, document = ''a''\<rparr>,
      \<lparr>index = 2, score = 0, raw_logit = Some 0.1, document = ''c''\<rparr>]"

definition demo_attached :: "search_result list" where
  "demo_attached =
     [(demo_chunk ''b'' 1 Hybrid 2)\<lparr>rerank_score := Some 10, final_rank := Some 1\<rparr>,
      (demo_chunk ''a'' 1 Hybrid 1)\<lparr>rerank_score := Some 9, final_rank := Some 2\<rparr>,
      (demo_chunk ''c'' 1 Hybrid 3)\<lparr>rerank_score := Some 0, final_rank := Some 3\<rparr>]"

definition demo_report :: search_report where
  "demo_report =
     \<lparr>report_success = True, report_query = ''q'', report_access_level = 1,
      vector_results_count = 0, bm25_results_count = 0, fused_results_count = 0,
      final_results_count = 0, report_results = [], weight_vector = 0.7, weight_bm25 = 0.3,
      from_cache = False, cache_ttl = None\<rparr>"

definition demo_index_data :: bm25_cache_data where
  "demo_index_data =
     \<lparr>cached_bm25_index = Some (BM25Okapi [[''a'']]), cached_docs = Some [''a''],
      cached_metadatas = Some [\<lparr>doc_id = Some ''a'', chunk_index = Some 0, access_level = Some 1\<rparr>],
      cached_ids = Some [''a_0''], cached_access_level = 1, cached_ttl = None\<rparr>"




text \<open>
  A small deployment: two chunks at levels 1 and 50, an embedder and a store that rank
  every chunk alike, no query expansion, a BM25 stand-in that counts the query tokens
  found in a document, and a reranking server that is down.
\<close>

definition demo_collection :: "stored_chunk list" where
  "demo_collection =
     [\<lparr>stored_id = ''d1_0'', stored_document = ''alpha report'',
       stored_metadata = \<lparr>doc_id = Some ''d1'', chunk_index = Some 0, access_level = Some 1\<rparr>\<rparr>,
      \<lparr>stored_id = ''d2_0'', stored_document = ''beta memo'',
       stored_metadata = \<lparr>doc_id = Some ''d2'', chunk_index = Some 0, access_level = Some 50\<rparr>\<rparr>]"

fun count_matches :: "bm25_index \<Rightarrow> string list \<Rightarrow> py_exn + real list" where
  "count_matches (BM25Okapi corpus) tokens =
     Inr (map (\<lambda>doc. real (length (filter (\<lambda>t. t \<in> set tokens) doc))) corpus)"

definition demo_services :: services where
  "demo_services =
     \<lparr>generate_query_embedding = (\<lambda>q. Inr [1]),
      ann_distance = (\<lambda>e c. 0.5),
      expand_query_smart = (\<lambda>q. Inr \<lparr>original_query = q, expanded_query = q,
                                        expansion_applied = False, synonyms_added = 0\<rparr>),
      morph_tokenize = improved_tokenize ascii_normal_form {},
      bm25_okapi = (\<lambda>corpus. Inr (BM25Okapi corpus)),
      bm25_get_scores = count_matches,
      reranking_service = rerank_results (\<lambda>q ds k. Inl ConnectionError)\<rparr>"

section \<open>Write tasks (worker/tasks.py, worker/services/database\_service.py)\<close>

















section \<open>Theorems\<close>

subsection \<open>Reranker client fallback\<close>


lemma py_prefix_nonneg: "0 \<le> k \<Longrightarrow> py_prefix xs k = take (nat (min k (int (length xs)))) xs"
  by (simp add: py_prefix_def min_def)

lemma rerank_results_failed:
  assumes "documents \<noteq> []" and "server_failed (post query documents top_k)"
  shows "rerank_results post query documents top_k = Inr (fallback_results documents top_k)"
proof (cases "post query documents top_k")
  case (Inl e)
  with assms show ?thesis
    by (cases e) (simp_all add: rerank_results_def rerank_request_def server_failed_def)
next
  case (Inr response)
  with assms show ?thesis
    by (simp add: rerank_results_def rerank_request_def server_failed_def)
qed

text \<open>
  C10. For a non-empty document list and a count \<open>top_k \<ge> 0\<close>, when the rerank
  server times out, is unreachable or answers with a status other than 200,
  \<open>rerank_results\<close> does not raise: it returns the first \<open>min(top_k, len(documents))\<close>
  documents in input order, with their input positions as indices and score 0.5 each.
\<close>

theorem C10_fallback_on_server_failure:
  assumes "documents \<noteq> []" and "0 \<le> top_k"
    and "server_failed (post query documents top_k)"
  shows "rerank_results post query documents top_k = Inr (spec_fallback documents top_k)
       \<and> (\<forall>r \<in> set (spec_fallback documents top_k). score r = 0.5)
       \<and> map document (spec_fallback documents top_k)
           = take (nat (min top_k (int (length documents)))) documents"
proof -
  have "rerank_results post query documents top_k = Inr (fallback_results documents top_k)"
    using assms(1,3) by (rule rerank_results_failed)
  then have "rerank_results post query documents top_k = Inr (spec_fallback documents top_k)"
    using assms(2) by (simp add: fallback_results_def spec_fallback_def py_prefix_nonneg)
  moreover have "\<forall>r \<in> set (spec_fallback documents top_k). score r = 0.5"
    by (auto simp: spec_fallback_def)
  moreover have "map document (spec_fallback documents top_k)
           = take (nat (min top_k (int (length documents)))) documents"
    by (simp add: spec_fallback_def case_prod_unfold comp_def)
  ultimately show ?thesis by simp
qed

theorem C10_fallback_witness:
  "rerank_results (\<lambda>q ds k. Inl ConnectionError) ''q'' [''a'', ''b'', ''c''] 2
     = Inr [\<lparr>index = 0, score = 0.5, raw_logit = None, document = ''a''\<rparr>,
            \<lparr>index = 1, score = 0.5, raw_logit = None, document = ''b''\<rparr>]"
  using C10_fallback_on_server_failure
    [of "[''a'', ''b'', ''c'']" 2 "\<lambda>q ds k. Inl ConnectionError" "''q''"]
  by (simp add: server_failed_def spec_fallback_def)

subsection \<open>Adaptive thresholds\<close>

lemma py_max_Max: "xs \<noteq> [] \<Longrightarrow> py_max xs = Max (set xs)"
  by (cases xs) (simp_all add: Max.set_eq_fold [symmetric])

lemma py_min_Min: "xs \<noteq> [] \<Longrightarrow> py_min xs = Min (set xs)"
  by (cases xs) (simp_all add: Min.set_eq_fold [symmetric])

lemma those_map_Some:
  "(\<forall>x \<in> set xs. f x \<noteq> None) \<Longrightarrow> those (map f xs) = Some (map (\<lambda>x. the (f x)) xs)"
  by (induction xs) auto

lemma attach_reranked_scored:
  "attach_reranked results reranked acc = Inr all_rs
   \<Longrightarrow> \<forall>r \<in> set acc. rerank_score r \<noteq> None
   \<Longrightarrow> \<forall>r \<in> set all_rs. rerank_score r \<noteq> None"
proof (induction results reranked acc rule: attach_reranked.induct)
  case (1 results acc)
  then show ?case by simp
next
  case (2 results rr rest acc)
  show ?case
  proof (cases "index rr < int (length results)")
    case False
    with 2 show ?thesis by simp
  next
    case True
    show ?thesis
    proof (cases "py_index results (index rr)")
      case (Inl e)
      with True 2(3) show ?thesis by simp
    next
      case (Inr result)
      with True 2(3) have
        "attach_reranked results rest
           (acc @ [result\<lparr>rerank_score := Some (score rr),
                           final_rank := Some (int (length acc) + 1)\<rparr>]) = Inr all_rs"
        by simp
      moreover have "\<forall>r \<in> set (acc @ [result\<lparr>rerank_score := Some (score rr),
                           final_rank := Some (int (length acc) + 1)\<rparr>]). rerank_score r \<noteq> None"
        using 2(4) by simp
      ultimately show ?thesis using 2(1) [OF True Inr] by blast
    qed
  qed
qed

lemma adaptive_thresholds_spec:
  "adaptive_thresholds best worst
     = (spec_high_threshold best (best - worst), spec_general_threshold best (best - worst))"
  by (simp add: adaptive_thresholds_def spec_high_threshold_def spec_general_threshold_def Let_def)

lemma relevance_filter_spec:
  assumes ne: "all_rs \<noteq> []" and sc: "\<forall>r \<in> set all_rs. rerank_score r \<noteq> None"
  shows "relevance_filter all_rs =
           Inr (if best_of all_rs < spec_general_threshold (best_of all_rs) (range_of all_rs)
                then []
                else filter (\<lambda>r. rerank_score_of r
                               \<ge> spec_high_threshold (best_of all_rs) (range_of all_rs)) all_rs)"
proof -
  let ?scores = "map (\<lambda>r. the (rerank_score r)) all_rs"
  have th: "those (map rerank_score all_rs) = Some ?scores"
    using sc by (rule those_map_Some)
  have eq: "?scores = map rerank_score_of all_rs"
    using sc by (auto simp: rerank_score_of_def)
  have sne: "?scores \<noteq> []" using ne by simp
  have best: "py_max ?scores = best_of all_rs"
    using sne by (simp add: py_max_Max eq best_of_def del: py_max.simps)
  have worst: "py_min ?scores = Min (rerank_score_of ` set all_rs)"
    using sne by (simp add: py_min_Min eq del: py_min.simps)
  have flt: "filter (score_at_least h) all_rs = filter (\<lambda>r. rerank_score_of r \<ge> h) all_rs" for h
    using sc by (intro filter_cong) (auto simp: score_at_least_def rerank_score_of_def)
  show ?thesis
    unfolding relevance_filter_def th option.case
    using sne by (simp add: Let_def best worst adaptive_thresholds_spec flt range_of_def
        del: py_max.simps py_min.simps)
qed

text \<open>
  C2. When the reranker answers and at least one answer is attached to a record, the
  retriever returns the empty list if the best score is below the general threshold of
  the range table, and otherwise exactly the attached records whose score reaches the
  high threshold (an empty list when none does). When the range exceeds 2, every
  returned record has a score of at least 0.8 times the best score.
\<close>

theorem C2_adaptive_threshold_filter:
  assumes "results \<noteq> []"
    and "rerank query (map content results) top_k = Inr reranked"
    and "attach_reranked results reranked [] = Inr all_rs"
    and "all_rs \<noteq> []"
  shows "search_rerank_results rerank query results top_k =
           (if best_of all_rs < spec_general_threshold (best_of all_rs) (range_of all_rs)
            then []
            else filter (\<lambda>r. rerank_score_of r
                           \<ge> spec_high_threshold (best_of all_rs) (range_of all_rs)) all_rs)
       \<and> (range_of all_rs > 2 \<longrightarrow>
            (\<forall>r \<in> set (search_rerank_results rerank query results top_k).
                rerank_score_of r \<ge> 0.8 * best_of all_rs))"
proof -
  have sc: "\<forall>r \<in> set all_rs. rerank_score r \<noteq> None"
    using attach_reranked_scored [OF assms(3)] by simp
  have main: "search_rerank_results rerank query results top_k =
           (if best_of all_rs < spec_general_threshold (best_of all_rs) (range_of all_rs)
            then []
            else filter (\<lambda>r. rerank_score_of r
                           \<ge> spec_high_threshold (best_of all_rs) (range_of all_rs)) all_rs)"
    using assms relevance_filter_spec [OF assms(4) sc]
    by (simp add: search_rerank_results_def rerank_and_filter_def)
  have "range_of all_rs > 2 \<Longrightarrow>
          \<forall>r \<in> set (search_rerank_results rerank query results top_k).
                rerank_score_of r \<ge> 0.8 * best_of all_rs"
    unfolding main by (auto simp: spec_high_threshold_def split: if_splits)
  with main show ?thesis by blast
qed

theorem C2_adaptive_threshold_witness:
  "range_of demo_attached > 2
   \<and> search_rerank_results (\<lambda>q ds k. Inr demo_reranked) ''q'' demo_results 10
       = [(demo_chunk ''b'' 1 Hybrid 2)\<lparr>rerank_score := Some 10, final_rank := Some 1\<rparr>,
          (demo_chunk ''a'' 1 Hybrid 1)\<lparr>rerank_score := Some 9, final_rank := Some 2\<rparr>]"
proof -
  have a: "attach_reranked demo_results demo_reranked [] = Inr demo_attached"
    by (simp add: demo_results_def demo_reranked_def demo_attached_def py_index_def)
  have b: "best_of demo_attached = 10"
    by (simp add: best_of_def demo_attached_def rerank_score_of_def)
  have r: "range_of demo_attached = 10"
    by (simp add: range_of_def b) (simp add: demo_attached_def rerank_score_of_def)
  have ne: "demo_results \<noteq> []" "demo_attached \<noteq> []"
    by (simp_all add: demo_results_def demo_attached_def)
  have "search_rerank_results (\<lambda>q ds k. Inr demo_reranked) ''q'' demo_results 10 =
           (if best_of demo_attached
                 < spec_general_threshold (best_of demo_attached) (range_of demo_attached)
            then []
            else filter (\<lambda>r. rerank_score_of r
                   \<ge> spec_high_threshold (best_of demo_attached) (range_of demo_attached))
                   demo_attached)"
    using C2_adaptive_threshold_filter
      [of demo_results "\<lambda>q ds k. Inr demo_reranked" "''q''" 10 demo_reranked demo_attached]
      a ne by simp
  then show ?thesis
    unfolding b r
    by (simp add: spec_general_threshold_def spec_high_threshold_def)
       (simp add: demo_attached_def rerank_score_of_def)
qed

subsection \<open>Reciprocal rank fusion\<close>
















lemma leg_contribution_zero_weight [simp]: "leg_contribution 0 k pos rs key = 0"
  by (induction rs arbitrary: pos) auto


















lemma set_first_seen [simp]: "set (first_seen xs) = set xs"
  by (induction xs) auto

lemma distinct_first_seen [simp]: "distinct (first_seen xs)"
  by (induction xs) auto












subsection \<open>Morphological tokenizer\<close>

lemma four_digits_isdigit: "is_four_digits token \<Longrightarrow> isdigit token"
  by (auto simp: is_four_digits_def isdigit_def)

lemma lemmatize_parts_no_digits:
  "lemmatize_parts normal_form stop_words parts = Inr out \<Longrightarrow> \<forall>t \<in> set out. \<not> isdigit t"
proof (induction parts arbitrary: out)
  case Nil
  then show ?case by simp
next
  case (Cons part parts)
  then show ?case
    by (auto split: if_splits sum.splits)
qed

text \<open>
  With a lemmatizer that answers a digit string for every digit string, as the
  morphology library does, no token made of digits only is ever emitted: the test
  \<open>not lemma.isdigit()\<close> guards the branch that would keep a four-digit year.
\<close>

lemma lemmatize_tokens_no_digits:
  assumes keeps: "\<And>t l. isdigit t \<Longrightarrow> normal_form t = Inr l \<Longrightarrow> isdigit l"
  shows "lemmatize_tokens normal_form stop_words tokens = Inr out \<Longrightarrow> \<forall>t \<in> set out. \<not> isdigit t"
proof (induction tokens arbitrary: out)
  case Nil
  then show ?case by simp
next
  case (Cons token tokens)
  show ?case
  proof (cases "length token < 2")
    case True
    with Cons show ?thesis by simp
  next
    case long: False
    show ?thesis
    proof (cases "CHR ''-'' \<in> set token \<and> length token > 3")
      case True
      with long Cons.prems obtain ls rest where
        p: "lemmatize_parts normal_form stop_words (split_on CHR ''-'' [] token) = Inr ls"
        and r: "lemmatize_tokens normal_form stop_words tokens = Inr rest"
        and o: "out = ls @ rest"
        by (auto split: sum.splits)
      from lemmatize_parts_no_digits [OF p] Cons.IH [OF r] o show ?thesis by auto
    next
      case False
      with long Cons.prems obtain l rest where
        l: "normal_form token = Inr l"
        and r: "lemmatize_tokens normal_form stop_words tokens = Inr rest"
        and o: "out = (if l \<notin> stop_words \<and> \<not> isdigit l
                       then (if token \<in> set [''DATE'', ''NUMBER''] \<or> is_four_digits token
                             then token # rest else l # rest)
                       else rest)"
        by (auto split: sum.splits if_splits)
      have "\<not> isdigit token" if "\<not> isdigit l"
        using that keeps [OF _ l] by blast
      with Cons.IH [OF r] o show ?thesis
        by (auto split: if_splits)
    qed
  qed
qed

text \<open>
  C5 at a concrete text. The date and the decimal number become \<open>DATE\<close> and \<open>NUMBER\<close>
  and are kept, but the standalone year 2023 is missing from the token list.
\<close>

theorem C5_year_token_dropped:
  "improved_tokenize ascii_normal_form {} ''Report 2023 costs 12.5 on 2023-01-15''
     = [''report'', ''costs'', ''NUMBER'', ''on'', ''DATE'']"
  by code_simp

subsection \<open>Cache store\<close>

lemma get_cached_search_results_total:
  "\<exists>r. get_cached_search_results client s query level params = Inr r"
  by (simp add: get_cached_search_results_def split: sum.splits)

lemma cache_search_results_total:
  "\<exists>ok. fst (cache_search_results client s query level report params ttl) = Inr ok"
  by (auto simp: cache_search_results_def split: sum.splits prod.splits)

lemma invalidate_search_cache_total:
  "\<exists>n. fst (invalidate_search_cache client s pattern) = Inr n"
  by (simp add: invalidate_search_cache_def split: sum.splits prod.splits)

lemma get_cached_bm25_index_total:
  "\<exists>r. get_cached_bm25_index client s level = Inr r"
  by (simp add: get_cached_bm25_index_def split: sum.splits)

lemma cache_bm25_index_total:
  "\<exists>ok. fst (cache_bm25_index client s level bm25_data ttl) = Inr ok"
  by (auto simp: cache_bm25_index_def split: sum.splits prod.splits)

lemma invalidate_bm25_cache_total:
  "\<exists>n. fst (invalidate_bm25_cache client s level_opt) = Inr n"
  by (simp add: invalidate_bm25_cache_def split: sum.splits prod.splits)

lemma invalidate_try_raises:
  assumes "isl (redis_keys client s pattern)
         \<or> (\<exists>keys. redis_keys client s pattern = Inr keys \<and> keys \<noteq> []
                \<and> isl (fst (redis_delete client s keys)))"
  shows "isl (fst (invalidate_try client s pattern))"
  using assms by (auto simp: invalidate_try_def split: sum.splits)

text \<open>
  C8. For every behaviour of the Redis client, no cache operation raises, and when the
  client call of an operation raises, a get answers None, a put answers False and an
  invalidation answers 0.
\<close>

theorem C8_cache_never_raises:
  "(\<exists>r. get_cached_search_results client s query level params = Inr r)
   \<and> (isl (redis_get client s (generate_search_cache_key query level params))
        \<longrightarrow> get_cached_search_results client s query level params = Inr None)
   \<and> (\<exists>ok. fst (cache_search_results client s query level report params ttl) = Inr ok)
   \<and> (isl (fst (redis_setex client s (generate_search_cache_key query level params)
                   (ttl_or ttl search_cache_ttl)
                   (JsonReport (report\<lparr>from_cache := False,
                                          cache_ttl := Some (ttl_or ttl search_cache_ttl)\<rparr>))))
        \<longrightarrow> fst (cache_search_results client s query level report params ttl) = Inr False)
   \<and> (\<exists>n. fst (invalidate_search_cache client s None) = Inr n)
   \<and> (isl (redis_keys client s search_pattern)
          \<or> (\<exists>keys. redis_keys client s search_pattern = Inr keys \<and> keys \<noteq> []
                 \<and> isl (fst (redis_delete client s keys)))
        \<longrightarrow> fst (invalidate_search_cache client s None) = Inr 0)
   \<and> (\<exists>r. get_cached_bm25_index client s level = Inr r)
   \<and> (isl (redis_get client s (Bm25Key level))
        \<longrightarrow> get_cached_bm25_index client s level = Inr None)
   \<and> (\<exists>ok. fst (cache_bm25_index client s level bm25_data ttl) = Inr ok)
   \<and> (isl (fst (redis_setex client s (Bm25Key level) (ttl_or ttl bm25_cache_ttl)
                   (PickledIndex (bm25_data\<lparr>cached_access_level := level,
                                    cached_ttl := Some (ttl_or ttl bm25_cache_ttl)\<rparr>))))
        \<longrightarrow> fst (cache_bm25_index client s level bm25_data ttl) = Inr False)
   \<and> (\<exists>n. fst (invalidate_bm25_cache client s level_opt) = Inr n)
   \<and> (isl (redis_keys client s bm25_pattern)
          \<or> (\<exists>keys. redis_keys client s bm25_pattern = Inr keys \<and> keys \<noteq> []
                 \<and> isl (fst (redis_delete client s keys)))
        \<longrightarrow> fst (invalidate_bm25_cache client s None) = Inr 0)
   \<and> (isl (fst (redis_delete client s [Bm25Key level]))
        \<longrightarrow> fst (invalidate_bm25_cache client s (Some level)) = Inr 0)"
proof -
  have g1: "isl (redis_get client s (generate_search_cache_key query level params))
        \<Longrightarrow> get_cached_search_results client s query level params = Inr None"
    by (auto simp: get_cached_search_results_def get_cached_search_results_try_def isl_def)
  have p1: "isl (fst (redis_setex client s (generate_search_cache_key query level params)
                   (ttl_or ttl search_cache_ttl)
                   (JsonReport (report\<lparr>from_cache := False,
                                          cache_ttl := Some (ttl_or ttl search_cache_ttl)\<rparr>))))
        \<Longrightarrow> fst (cache_search_results client s query level report params ttl) = Inr False"
    by (auto simp: cache_search_results_def cache_search_results_try_def isl_def
        split: prod.splits sum.splits)
  have i1: "isl (redis_keys client s search_pattern)
          \<or> (\<exists>keys. redis_keys client s search_pattern = Inr keys \<and> keys \<noteq> []
                 \<and> isl (fst (redis_delete client s keys)))
        \<Longrightarrow> fst (invalidate_search_cache client s None) = Inr 0"
    using invalidate_try_raises [of client s search_pattern]
    by (auto simp: invalidate_search_cache_def isl_def split: prod.splits sum.splits)
  have g2: "isl (redis_get client s (Bm25Key level))
        \<Longrightarrow> get_cached_bm25_index client s level = Inr None"
    by (auto simp: get_cached_bm25_index_def get_cached_bm25_index_try_def isl_def)
  have p2: "isl (fst (redis_setex client s (Bm25Key level) (ttl_or ttl bm25_cache_ttl)
                   (PickledIndex (bm25_data\<lparr>cached_access_level := level,
                                    cached_ttl := Some (ttl_or ttl bm25_cache_ttl)\<rparr>))))
        \<Longrightarrow> fst (cache_bm25_index client s level bm25_data ttl) = Inr False"
    by (auto simp: cache_bm25_index_def cache_bm25_index_try_def isl_def
        split: prod.splits sum.splits)
  have i2: "isl (redis_keys client s bm25_pattern)
          \<or> (\<exists>keys. redis_keys client s bm25_pattern = Inr keys \<and> keys \<noteq> []
                 \<and> isl (fst (redis_delete client s keys)))
        \<Longrightarrow> fst (invalidate_bm25_cache client s None) = Inr 0"
    using invalidate_try_raises [of client s bm25_pattern]
    by (auto simp: invalidate_bm25_cache_def invalidate_bm25_cache_try_def isl_def
        split: prod.splits sum.splits)
  have i3: "isl (fst (redis_delete client s [Bm25Key level]))
        \<Longrightarrow> fst (invalidate_bm25_cache client s (Some level)) = Inr 0"
    by (auto simp: invalidate_bm25_cache_def invalidate_bm25_cache_try_def isl_def
        split: prod.splits sum.splits)
  show ?thesis
    using get_cached_search_results_total [of client s query level params]
      cache_search_results_total [of client s query level report params ttl]
      invalidate_search_cache_total [of client s None]
      get_cached_bm25_index_total [of client s level]
      cache_bm25_index_total [of client s level bm25_data ttl]
      invalidate_bm25_cache_total [of client s level_opt]
      g1 p1 i1 g2 p2 i2 i3
    by (intro conjI impI) assumption+
qed

theorem C8_cache_never_raises_witness:
  "get_cached_search_results broken_client () ''q'' 1 None = Inr None
   \<and> fst (cache_search_results broken_client () ''q'' 1 demo_report None None) = Inr False
   \<and> fst (invalidate_search_cache broken_client () None) = Inr 0
   \<and> get_cached_bm25_index broken_client () 1 = Inr None
   \<and> fst (cache_bm25_index broken_client () 1 demo_index_data None) = Inr False
   \<and> fst (invalidate_bm25_cache broken_client () None) = Inr 0
   \<and> fst (invalidate_bm25_cache broken_client () (Some 1)) = Inr 0"
  using C8_cache_never_raises [where client = broken_client and s = "()" and query = "''q''"
      and level = 1 and params = None and report = demo_report and ttl = None
      and bm25_data = demo_index_data and level_opt = None]
  by (simp add: broken_client_def)

subsection \<open>Connection pool\<close>







































subsection \<open>Access filter of the retriever\<close>

lemma set_py_prefix: "set (py_prefix xs k) \<subseteq> set xs"
  by (auto simp: py_prefix_def dest: in_set_takeD)

lemma collection_query_filtered:
  assumes "collection_query distance_of chunks emb n level = Inr hits" and "(c, d) \<in> set hits"
  shows "where_lte level c"
proof -
  from assms(1) have "hits = take (nat n)
      (sort_key snd (map (\<lambda>c. (c, distance_of emb c)) (filter (where_lte level) chunks)))"
    by (simp add: collection_query_def split: if_splits)
  with assms(2) have "(c, d) \<in> set (sort_key snd
      (map (\<lambda>c. (c, distance_of emb c)) (filter (where_lte level) chunks)))"
    using in_set_takeD by fastforce
  then show ?thesis by auto
qed

lemma vector_search_access:
  assumes r: "r \<in> set (vector_search svc st query level top_k)"
  shows "has_access level r"
proof (cases "generate_query_embedding svc query")
  case (Inl e)
  with r show ?thesis by (simp add: vector_search_def)
next
  case emb: (Inr emb)
  show ?thesis
  proof (cases "chroma_reachable st")
    case False
    with r emb show ?thesis by (simp add: vector_search_def)
  next
    case up: True
    show ?thesis
    proof (cases "collection_query (ann_distance svc) (collection st) emb top_k level")
      case (Inl e)
      with r emb up show ?thesis by (simp add: vector_search_def)
    next
      case hits: (Inr hits)
      with r emb up have "r \<in> vector_hit ` set (enumerate 0 hits)"
        by (simp add: vector_search_def)
      then obtain h where h: "h \<in> set (enumerate 0 hits)" "r = vector_hit h"
        by blast
      obtain i c d where icd: "h = (i, c, d)" by (cases h) auto
      from h(1) have "snd h \<in> set hits"
        unfolding in_set_enumerate_eq using nth_mem [of "fst h - 0" hits] by simp
      then have "(c, d) \<in> set hits" by (simp add: icd)
      with hits have "where_lte level c" by (rule collection_query_filtered)
      then show ?thesis
        unfolding h(2) icd
        by (simp add: vector_hit_def has_access_def where_lte_def)
    qed
  qed
qed

lemma bm25_collect_access:
  assumes "levelled (get_or_empty (bm25_metadatas st))"
  shows "bm25_collect st level info i scores acc = Inr out
    \<Longrightarrow> \<forall>r \<in> set acc. has_access level r \<Longrightarrow> \<forall>r \<in> set out. has_access level r"
proof (induction scores arbitrary: i acc)
  case Nil
  then show ?case by simp
next
  case (Cons s scores)
  from Cons.prems(1) obtain mds where mds: "bm25_metadatas st = Some mds"
    by (auto split: option.splits)
  with assms have lv: "\<forall>md \<in> set mds. access_level md \<noteq> None"
    by (simp add: levelled_def get_or_empty_def list_all_iff)
  show ?case
  proof (cases "i < length mds
             \<and> (case access_level (mds ! i) of None \<Rightarrow> 0 | Some a \<Rightarrow> a) \<le> level")
    case False
    with Cons.prems mds have "bm25_collect st level info (Suc i) scores acc = Inr out"
      by (auto split: if_splits)
    from Cons.IH [OF this Cons.prems(2)] show ?thesis .
  next
    case True
    then have "mds ! i \<in> set mds" by simp
    with lv obtain a where a: "access_level (mds ! i) = Some a" by auto
    with True have al: "a \<le> level" by simp
    from Cons.prems(1) mds True obtain ids where ids: "bm25_ids st = Some ids"
      by (cases "bm25_ids st") simp_all
    from Cons.prems(1) mds True ids obtain docs where docs: "bm25_docs st = Some docs"
      by (cases "bm25_docs st") simp_all
    from Cons.prems(1) mds True ids docs have len: "i < length ids \<and> i < length docs"
      by (cases "i < length ids \<and> i < length docs") simp_all
    from Cons.prems(1) have rec: "bm25_collect st level info (Suc i) scores
                 (acc @ [\<lparr>rid = ids ! i, content = docs ! i, metadata = mds ! i,
                           leg_score = s, rtype = Bm25, rank = int (length acc) + 1,
                           query_expansion = Some info, rrf_score = None,
                           rerank_score = None, final_rank = None\<rparr>]) = Inr out"
      unfolding bm25_collect.simps mds ids docs option.case prod.case
      using True len by simp
    have "\<forall>r \<in> set (acc @ [\<lparr>rid = ids ! i, content = docs ! i, metadata = mds ! i,
                           leg_score = s, rtype = Bm25, rank = int (length acc) + 1,
                           query_expansion = Some info, rrf_score = None,
                           rerank_score = None, final_rank = None\<rparr>]). has_access level r"
      using Cons.prems(2) a al by (auto simp: has_access_def)
    from Cons.IH [OF rec this] show ?thesis .
  qed
qed

lemma bm25_search_try_access:
  assumes "levelled (get_or_empty (bm25_metadatas st))"
    and "bm25_search_try svc st query level top_k = Inr found"
  shows "\<forall>r \<in> set found. has_access level r"
proof (cases "bm25 st")
  case None
  with assms(2) show ?thesis by (simp add: bm25_search_try_def)
next
  case (Some built)
  from assms(2) Some obtain info where
    i: "expand_query_smart svc query = Inr info"
    by (cases "expand_query_smart svc query") (simp_all add: bm25_search_try_def)
  from assms(2) Some i obtain scores where
    s: "bm25_get_scores svc built (morph_tokenize svc (expanded_query info)) = Inr scores"
    by (cases "bm25_get_scores svc built (morph_tokenize svc (expanded_query info))")
       (simp_all add: bm25_search_try_def)
  from assms(2) Some i s obtain collected where
    c: "bm25_collect st level (info\<lparr>original_query := query\<rparr>) 0 scores [] = Inr collected"
    and f: "found = py_prefix (sort_key (\<lambda>r. - leg_score r) collected) top_k"
    by (cases "bm25_collect st level (info\<lparr>original_query := query\<rparr>) 0 scores []")
       (simp_all add: bm25_search_try_def)
  have "set found \<subseteq> set collected"
    unfolding f using set_py_prefix [of "sort_key (\<lambda>r. - leg_score r) collected" top_k] by simp
  with bm25_collect_access [OF assms(1) c] show ?thesis by auto
qed

lemma bm25_search_access:
  assumes "levelled (get_or_empty (bm25_metadatas st))"
    and "r \<in> set (bm25_search svc st query level top_k)"
  shows "has_access level r"
proof (cases "bm25_search_try svc st query level top_k")
  case (Inl e)
  with assms(2) show ?thesis by (simp add: bm25_search_def)
next
  case (Inr found)
  with assms(2) bm25_search_try_access [OF assms(1) Inr] show ?thesis
    by (simp add: bm25_search_def)
qed

lemma mem_redis_get:
  "redis_get mem_redis s key = (if reachable s then Inr (map_of (entries s) key) else Inl RedisError)"
  by (simp add: mem_redis_def)

lemma mem_redis_setex:
  "redis_setex mem_redis s key ttl v =
     (if \<not> reachable s \<or> ttl \<le> 0 then (Inl RedisError, s)
      else (Inr True, s\<lparr>entries := (key, v) # filter (\<lambda>e. fst e \<noteq> key) (entries s)\<rparr>))"
  by (simp add: mem_redis_def)


lemma mem_redis_delete:
  "redis_delete mem_redis s keys =
     (if reachable s
      then (Inr (int (length (filter (\<lambda>e. fst e \<in> set keys) (entries s)))),
            s\<lparr>entries := filter (\<lambda>e. fst e \<notin> set keys) (entries s)\<rparr>)
      else (Inl RedisError, s))"
  by (simp add: mem_redis_def)

lemma cached_bm25_index_entry:
  assumes "get_cached_bm25_index mem_redis c level = Inr (Some d)"
  shows "(Bm25Key level, PickledIndex d) \<in> set (entries c)"
proof -
  from assms have t: "get_cached_bm25_index_try mem_redis c level = Inr (Some d)"
    by (cases "get_cached_bm25_index_try mem_redis c level")
       (simp_all add: get_cached_bm25_index_def)
  then have up: "reachable c"
    by (cases "reachable c") (simp_all add: get_cached_bm25_index_try_def mem_redis_get)
  with t obtain v where v: "map_of (entries c) (Bm25Key level) = Some v"
    by (cases "map_of (entries c) (Bm25Key level)")
       (simp_all add: get_cached_bm25_index_try_def mem_redis_get)
  with t up have "v = PickledIndex d"
    by (cases v) (simp_all add: get_cached_bm25_index_try_def mem_redis_get split: if_splits)
  with v show ?thesis by (simp add: map_of_SomeD)
qed

lemma cached_search_results_entry:
  assumes "get_cached_search_results mem_redis c query level params = Inr (Some cached)"
  shows "\<exists>report. (generate_search_cache_key query level params, JsonReport report) \<in> set (entries c)
           \<and> cached = report\<lparr>from_cache := True\<rparr>"
proof -
  let ?key = "generate_search_cache_key query level params"
  from assms have t: "get_cached_search_results_try mem_redis c query level params = Inr (Some cached)"
    by (cases "get_cached_search_results_try mem_redis c query level params")
       (simp_all add: get_cached_search_results_def)
  then have up: "reachable c"
    by (cases "reachable c") (simp_all add: get_cached_search_results_try_def mem_redis_get)
  with t obtain v where v: "map_of (entries c) ?key = Some v"
    by (cases "map_of (entries c) ?key")
       (simp_all add: get_cached_search_results_try_def mem_redis_get)
  with t up obtain report where rp: "v = JsonReport report" "cached = report\<lparr>from_cache := True\<rparr>"
    by (cases v) (auto simp: get_cached_search_results_try_def mem_redis_get split: if_splits)
  from v rp(1) have "(?key, JsonReport report) \<in> set (entries c)"
    by (simp add: map_of_SomeD)
  with rp(2) show ?thesis by blast
qed

lemma setex_entries_ok:
  assumes "list_all entry_ok (entries c)" and "entry_ok (key, v)"
  shows "list_all entry_ok (entries (snd (redis_setex mem_redis c key ttl v)))"
  using assms by (simp add: mem_redis_setex list_all_iff)

lemma delete_entries_ok:
  assumes "list_all entry_ok (entries c)"
  shows "list_all entry_ok (entries (snd (redis_delete mem_redis c keys)))"
  using assms by (simp add: mem_redis_delete list_all_iff)

lemma cache_bm25_index_ok:
  assumes "list_all entry_ok (entries c)" and "levelled (get_or_empty (cached_metadatas d))"
  shows "list_all entry_ok (entries (snd (cache_bm25_index mem_redis c level d ttl)))"
proof -
  let ?v = "PickledIndex (d\<lparr>cached_access_level := level,
                              cached_ttl := Some (ttl_or ttl bm25_cache_ttl)\<rparr>)"
  have ok: "entry_ok (Bm25Key level, ?v)" using assms(2) by simp
  have "snd (cache_bm25_index mem_redis c level d ttl)
      = snd (redis_setex mem_redis c (Bm25Key level) (ttl_or ttl bm25_cache_ttl) ?v)"
    by (simp add: cache_bm25_index_def cache_bm25_index_try_def split: prod.splits sum.splits)
  with setex_entries_ok [OF assms(1) ok] show ?thesis by simp
qed

lemma cache_search_results_ok:
  assumes "list_all entry_ok (entries c)" and "list_all (has_access level) (report_results report)"
  shows "list_all entry_ok (entries (snd (cache_search_results mem_redis c query level report params ttl)))"
proof -
  let ?v = "JsonReport (report\<lparr>from_cache := False,
                               cache_ttl := Some (ttl_or ttl search_cache_ttl)\<rparr>)"
  have ok: "entry_ok (generate_search_cache_key query level params, ?v)"
    using assms(2) by (simp add: generate_search_cache_key_def)
  have "snd (cache_search_results mem_redis c query level report params ttl)
      = snd (redis_setex mem_redis c (generate_search_cache_key query level params)
               (ttl_or ttl search_cache_ttl) ?v)"
    by (simp add: cache_search_results_def cache_search_results_try_def split: prod.splits sum.splits)
  with setex_entries_ok [OF assms(1) ok] show ?thesis by simp
qed

lemma invalidate_entries_ok:
  assumes "list_all entry_ok (entries c)"
  shows "list_all entry_ok (entries (snd (invalidate_try mem_redis c pattern)))"
proof (cases "redis_keys mem_redis c pattern")
  case (Inl e)
  with assms show ?thesis by (simp add: invalidate_try_def)
next
  case (Inr keys)
  with assms delete_entries_ok [OF assms, of keys] show ?thesis
    by (simp add: invalidate_try_def)
qed

lemma levelled_filtered:
  "levelled (map stored_metadata (filter (where_lte level) chunks))"
  by (auto simp: levelled_def list_all_iff where_lte_def split: option.splits)

lemma service_inv_bm25_None:
  "service_inv st \<Longrightarrow> service_inv (st\<lparr>bm25 := None\<rparr>)"
  by (simp add: service_inv_def)

lemma build_bm25_inv:
  assumes "service_inv st"
  shows "service_inv (build_bm25 svc st level)"
proof (cases "chroma_reachable st \<and> filter (where_lte level) (collection st) \<noteq> []")
  case False
  with service_inv_bm25_None [OF assms] show ?thesis
    by (auto simp: build_bm25_def Let_def)
next
  case True
  let ?all = "filter (where_lte level) (collection st)"
  show ?thesis
  proof (cases "bm25_okapi svc (map (\<lambda>c. morph_tokenize svc (stored_document c)) ?all)")
    case (Inl e)
    with True service_inv_bm25_None [OF assms] show ?thesis
      by (simp add: build_bm25_def Let_def)
  next
    case (Inr built)
    let ?mds = "map stored_metadata ?all"
    let ?d = "\<lparr>cached_bm25_index = Some built, cached_docs = Some (map stored_document ?all),
               cached_metadatas = Some ?mds,
               cached_ids = Some (map (\<lambda>(i, md). format_chunk_id (''unknown_'' @ str_of_nat i) i md)
                                       (enumerate 0 ?mds)),
               cached_access_level = level, cached_ttl = None\<rparr>"
    have c: "list_all entry_ok (entries (snd (cache_bm25_index mem_redis (cache st) level ?d None)))"
      using assms by (intro cache_bm25_index_ok) (simp_all add: service_inv_def get_or_empty_def levelled_filtered)
    have "cache (build_bm25 svc st level) = snd (cache_bm25_index mem_redis (cache st) level ?d None)"
      and "bm25_metadatas (build_bm25 svc st level) = Some ?mds"
      using True Inr by (simp_all add: build_bm25_def Let_def)
    with c show ?thesis
      by (simp add: service_inv_def get_or_empty_def levelled_filtered)
  qed
qed

lemma ensure_bm25_initialized_inv:
  assumes "service_inv st"
  shows "service_inv (ensure_bm25_initialized svc st level)"
proof (cases "bm25_initialized st")
  case True
  with assms show ?thesis by (simp add: ensure_bm25_initialized_def)
next
  case False
  show ?thesis
  proof (cases "get_cached_bm25_index mem_redis (cache st) level")
    case (Inl e)
    with False service_inv_bm25_None [OF assms] show ?thesis
      by (simp add: ensure_bm25_initialized_def)
  next
    case (Inr found)
    show ?thesis
    proof (cases found)
      case None
      with False Inr build_bm25_inv [OF assms] show ?thesis
        by (simp add: ensure_bm25_initialized_def)
    next
      case (Some d)
      from cached_bm25_index_entry [OF Inr [unfolded Some]] assms
      have "entry_ok (Bm25Key level, PickledIndex d)"
        by (auto simp: service_inv_def list_all_iff)
      then have "levelled (get_or_empty (cached_metadatas d))" by simp
      with False Inr Some assms show ?thesis
        by (simp add: ensure_bm25_initialized_def service_inv_def get_or_empty_def)
    qed
  qed
qed

lemma py_index_mem: "py_index xs i = Inr x \<Longrightarrow> x \<in> set xs"
  by (auto simp: py_index_def split: if_splits)

lemma attach_reranked_source:
  "attach_reranked results reranked acc = Inr out
   \<Longrightarrow> \<forall>r \<in> set acc. \<exists>r' \<in> set results. metadata r = metadata r'
   \<Longrightarrow> \<forall>r \<in> set out. \<exists>r' \<in> set results. metadata r = metadata r'"
proof (induction reranked arbitrary: acc)
  case Nil
  then show ?case by simp
next
  case (Cons rr rest)
  show ?case
  proof (cases "index rr < int (length results)")
    case False
    with Cons.prems(1) have "attach_reranked results rest acc = Inr out" by simp
    from Cons.IH [OF this Cons.prems(2)] show ?thesis .
  next
    case True
    with Cons.prems(1) obtain x where x: "py_index results (index rr) = Inr x"
      by (cases "py_index results (index rr)") simp_all
    let ?acc = "acc @ [x\<lparr>rerank_score := Some (score rr), final_rank := Some (int (length acc) + 1)\<rparr>]"
    from Cons.prems(1) True x have rec: "attach_reranked results rest ?acc = Inr out" by simp
    have "\<forall>r \<in> set ?acc. \<exists>r' \<in> set results. metadata r = metadata r'"
      using Cons.prems(2) py_index_mem [OF x] by auto
    from Cons.IH [OF rec this] show ?thesis .
  qed
qed

lemma relevance_filter_subset:
  "relevance_filter all_rs = Inr out \<Longrightarrow> set out \<subseteq> set all_rs"
  by (auto simp: relevance_filter_def Let_def split: option.splits prod.splits if_splits)

lemma search_rerank_results_source:
  assumes "r \<in> set (search_rerank_results rerank query results top_k)"
  shows "\<exists>r' \<in> set results. metadata r = metadata r'"
proof (cases "rerank_and_filter rerank query results top_k")
  case (Inl e)
  with assms have "r \<in> set (py_prefix results top_k)"
    by (simp add: search_rerank_results_def split: if_splits)
  with set_py_prefix [of results top_k] show ?thesis by auto
next
  case (Inr out)
  with assms have r: "r \<in> set out"
    by (simp add: search_rerank_results_def split: if_splits)
  from Inr obtain reranked where "rerank query (map content results) top_k = Inr reranked"
    by (cases "rerank query (map content results) top_k") (simp_all add: rerank_and_filter_def)
  with Inr obtain all_rs where a: "attach_reranked results reranked [] = Inr all_rs"
    and f: "out = [] \<or> relevance_filter all_rs = Inr out"
    by (cases "attach_reranked results reranked []")
       (auto simp: rerank_and_filter_def split: if_splits)
  from f r have "r \<in> set all_rs" using relevance_filter_subset by auto
  with attach_reranked_source [OF a] show ?thesis by simp
qed

lemma rrf_vector_loop_values:
  "snd (rrf_vector_loop w k pos rs (d, docs)) key = Some r \<Longrightarrow> r \<in> set rs \<or> docs key = Some r"
proof (induction rs arbitrary: pos d docs)
  case Nil
  then show ?case by simp
next
  case (Cons x rs)
  from Cons.prems have
    "snd (rrf_vector_loop w k (Suc pos) rs
           (dict_add d (rid x) (w * (1 / real_of_int (k + int pos + 1))), docs(rid x \<mapsto> x))) key = Some r"
    by simp
  from Cons.IH [OF this] show ?case
    by (auto split: if_splits)
qed

lemma rrf_bm25_loop_values:
  "snd (rrf_bm25_loop w k pos rs (d, docs)) key = Some r \<Longrightarrow> r \<in> set rs \<or> docs key = Some r"
proof (induction rs arbitrary: pos d docs)
  case Nil
  then show ?case by simp
next
  case (Cons x rs)
  let ?docs = "case docs (rid x) of None \<Rightarrow> docs(rid x \<mapsto> x) | Some seen \<Rightarrow> docs"
  from Cons.prems have
    "snd (rrf_bm25_loop w k (Suc pos) rs
           (dict_add d (rid x) (w * (1 / real_of_int (k + int pos + 1))), ?docs)) key = Some r"
    by simp
  from Cons.IH [OF this] show ?case
    by (auto split: if_splits option.splits)
qed

lemma rrf_emit_source:
  "r \<in> set (rrf_emit docs pos sd) \<Longrightarrow> \<exists>key r'. docs key = Some r' \<and> metadata r = metadata r'"
proof (induction sd arbitrary: pos)
  case Nil
  then show ?case by simp
next
  case (Cons p sd)
  obtain key s where p: "p = (key, s)" by (cases p)
  show ?case
  proof (cases "docs key")
    case None
    with Cons.prems p have "r \<in> set (rrf_emit docs (Suc pos) sd)" by simp
    from Cons.IH [OF this] show ?thesis .
  next
    case (Some x)
    with Cons.prems p have
      "r = x\<lparr>rtype := Hybrid, rank := int pos + 1, rrf_score := Some s\<rparr>
       \<or> r \<in> set (rrf_emit docs (Suc pos) sd)"
      by simp
    then show ?thesis
    proof
      assume "r = x\<lparr>rtype := Hybrid, rank := int pos + 1, rrf_score := Some s\<rparr>"
      then have "metadata r = metadata x" by simp
      with Some show ?thesis by blast
    next
      assume "r \<in> set (rrf_emit docs (Suc pos) sd)"
      from Cons.IH [OF this] show ?thesis .
    qed
  qed
qed

lemma rrf_fusion_source:
  assumes "r \<in> set (rrf_fusion v b vw bw k)"
  shows "\<exists>r' \<in> set v \<union> set b. metadata r = metadata r'"
proof (cases "rrf_zero_division k (length v) \<or> rrf_zero_division k (length b)")
  case True
  with assms have "r \<in> set v" by (simp add: rrf_fusion_def)
  then show ?thesis by blast
next
  case False
  obtain d1 docs1 where av: "rrf_vector_loop vw k 0 v ([], Map.empty) = (d1, docs1)"
    by (cases "rrf_vector_loop vw k 0 v ([], Map.empty)")
  obtain d2 docs2 where ab: "rrf_bm25_loop bw k 0 b (d1, docs1) = (d2, docs2)"
    by (cases "rrf_bm25_loop bw k 0 b (d1, docs1)")
  from assms False av ab have "r \<in> set (rrf_emit docs2 0 (sort_key (\<lambda>(key, s). - s) d2))"
    by (simp add: rrf_fusion_def Let_def)
  from rrf_emit_source [OF this] obtain key r' where
    r': "docs2 key = Some r'" "metadata r = metadata r'" by blast
  from r'(1) ab have "snd (rrf_bm25_loop bw k 0 b (d1, docs1)) key = Some r'" by simp
  from rrf_bm25_loop_values [OF this] have "r' \<in> set b \<or> docs1 key = Some r'" .
  moreover have "r' \<in> set v" if "docs1 key = Some r'"
  proof -
    from that av have "snd (rrf_vector_loop vw k 0 v ([], Map.empty)) key = Some r'" by simp
    from rrf_vector_loop_values [OF this] show ?thesis by simp
  qed
  ultimately have "r' \<in> set v \<union> set b" by blast
  with r'(2) show ?thesis by blast
qed

lemma has_access_metadata:
  "metadata r = metadata r' \<Longrightarrow> has_access level r = has_access level r'"
  by (simp add: has_access_def)

lemma hybrid_search_miss:
  assumes "\<not> (\<exists>cached. get_cached_search_results mem_redis (cache st) query level
              (Some \<lparr>param_top_k = top_k, param_rerank_top_k = rerank_top_k,
                     param_vector_weight = vw, param_bm25_weight = bw\<rparr>) = Inr (Some cached))"
  shows "\<exists>reranked st1.
      st1 = ensure_bm25_initialized svc st level
    \<and> reranked = (let fused = rrf_fusion (vector_search svc st1 query level top_k)
                                 (bm25_search svc st1 query level top_k) vw bw 60
                  in if length fused > 0 \<and> rerank_top_k > 0
                     then search_rerank_results (reranking_service svc) query fused rerank_top_k
                     else py_prefix fused rerank_top_k)
    \<and> report_results (fst (hybrid_search svc st query level top_k rerank_top_k vw bw)) = reranked
    \<and> snd (hybrid_search svc st query level top_k rerank_top_k vw bw)
        = st1\<lparr>cache := snd (cache_search_results mem_redis (cache st1) query level
                              (fst (hybrid_search svc st query level top_k rerank_top_k vw bw))
                              (Some \<lparr>param_top_k = top_k, param_rerank_top_k = rerank_top_k,
                                     param_vector_weight = vw, param_bm25_weight = bw\<rparr>) None)\<rparr>"
proof (cases "get_cached_search_results mem_redis (cache st) query level
              (Some \<lparr>param_top_k = top_k, param_rerank_top_k = rerank_top_k,
                     param_vector_weight = vw, param_bm25_weight = bw\<rparr>)")
  case (Inl e)
  then show ?thesis by (simp add: hybrid_search_def Let_def)
next
  case (Inr found)
  with assms have "found = None" by (cases found) simp_all
  with Inr show ?thesis by (simp add: hybrid_search_def Let_def)
qed

lemma new_search_service_inv: "service_inv (new_search_service chunks)"
  by (simp add: service_inv_def new_search_service_def get_or_empty_def levelled_def)

lemma reranked_access:
  assumes v: "\<forall>r \<in> set vs. has_access level r" and b: "\<forall>r \<in> set bs. has_access level r"
    and r: "r \<in> set (let fused = rrf_fusion vs bs vw bw 60
                       in if length fused > 0 \<and> rerank_top_k > 0
                          then search_rerank_results rerank query fused rerank_top_k
                          else py_prefix fused rerank_top_k)"
  shows "has_access level r"
proof -
  let ?fused = "rrf_fusion vs bs vw bw 60"
  have fused: "has_access level x" if "x \<in> set ?fused" for x
  proof -
    from rrf_fusion_source [OF that] obtain x' where "x' \<in> set vs \<union> set bs" "metadata x = metadata x'"
      by blast
    with v b has_access_metadata [of x x' level] show ?thesis by auto
  qed
  show ?thesis
  proof (cases "length ?fused > 0 \<and> rerank_top_k > 0")
    case True
    with r have "r \<in> set (search_rerank_results rerank query ?fused rerank_top_k)"
      by (simp add: Let_def)
    from search_rerank_results_source [OF this] obtain r' where
      "r' \<in> set ?fused" "metadata r = metadata r'" by blast
    with fused [of r'] has_access_metadata [of r r' level] show ?thesis by simp
  next
    case False
    with r have "r \<in> set (py_prefix ?fused rerank_top_k)"
      by (auto simp: Let_def split: if_splits)
    with set_py_prefix [of ?fused rerank_top_k] fused show ?thesis by auto
  qed
qed

text \<open>
  C1. In every state of the service that satisfies the invariant (the state of a new
  service does, and \<open>hybrid_search\<close> keeps it), every chunk in the results that
  \<open>hybrid_search\<close> returns for clearance \<open>level\<close> carries an access level in its
  metadata that is at most \<open>level\<close>, whether the report is computed or read from
  the cache. The vector store is taken to honour the filter it is given, and the cache
  key to be free of hash collisions.
\<close>

theorem C1_access_filter:
  assumes "service_inv st"
  shows "(\<forall>r \<in> set (report_results (fst (hybrid_search svc st query level top_k rerank_top_k
                                              vector_weight bm25_weight))).
            has_access level r)
       \<and> service_inv (snd (hybrid_search svc st query level top_k rerank_top_k
                              vector_weight bm25_weight))"
proof (cases "\<exists>cached. get_cached_search_results mem_redis (cache st) query level
              (Some \<lparr>param_top_k = top_k, param_rerank_top_k = rerank_top_k,
                     param_vector_weight = vector_weight, param_bm25_weight = bm25_weight\<rparr>)
              = Inr (Some cached)")
  case True
  then obtain cached where c: "get_cached_search_results mem_redis (cache st) query level
              (Some \<lparr>param_top_k = top_k, param_rerank_top_k = rerank_top_k,
                     param_vector_weight = vector_weight, param_bm25_weight = bm25_weight\<rparr>)
              = Inr (Some cached)" by blast
  then have h: "hybrid_search svc st query level top_k rerank_top_k vector_weight bm25_weight
      = (cached, st)"
    by (simp add: hybrid_search_def Let_def)
  from cached_search_results_entry [OF c] obtain report where
    e: "(generate_search_cache_key query level
           (Some \<lparr>param_top_k = top_k, param_rerank_top_k = rerank_top_k,
                  param_vector_weight = vector_weight, param_bm25_weight = bm25_weight\<rparr>),
         JsonReport report) \<in> set (entries (cache st))"
    and r: "cached = report\<lparr>from_cache := True\<rparr>" by blast
  from e assms have "list_all (has_access level) (report_results report)"
    by (auto simp: service_inv_def list_all_iff generate_search_cache_key_def)
  with r have "\<forall>x \<in> set (report_results cached). has_access level x"
    by (simp add: list_all_iff)
  with h assms show ?thesis by simp
next
  case False
  let ?st1 = "ensure_bm25_initialized svc st level"
  let ?h = "hybrid_search svc st query level top_k rerank_top_k vector_weight bm25_weight"
  let ?params = "Some \<lparr>param_top_k = top_k, param_rerank_top_k = rerank_top_k,
                     param_vector_weight = vector_weight, param_bm25_weight = bm25_weight\<rparr>"
  from hybrid_search_miss [OF False, of svc]
  have res: "report_results (fst ?h) =
        (let fused = rrf_fusion (vector_search svc ?st1 query level top_k)
                                 (bm25_search svc ?st1 query level top_k) vector_weight bm25_weight 60
         in if length fused > 0 \<and> rerank_top_k > 0
            then search_rerank_results (reranking_service svc) query fused rerank_top_k
            else py_prefix fused rerank_top_k)"
    and st': "snd ?h = ?st1\<lparr>cache := snd (cache_search_results mem_redis (cache ?st1) query level
                              (fst ?h) ?params None)\<rparr>"
    by simp_all
  have inv1: "service_inv ?st1" using assms by (rule ensure_bm25_initialized_inv)
  have v: "\<forall>r \<in> set (vector_search svc ?st1 query level top_k). has_access level r"
    using vector_search_access by blast
  have b: "\<forall>r \<in> set (bm25_search svc ?st1 query level top_k). has_access level r"
    using bm25_search_access inv1 by (auto simp: service_inv_def)
  have acc: "\<forall>r \<in> set (report_results (fst ?h)). has_access level r"
    unfolding res using reranked_access [OF v b] by blast
  then have "list_all (has_access level) (report_results (fst ?h))"
    by (simp add: list_all_iff)
  with inv1 have "list_all entry_ok (entries (snd (cache_search_results mem_redis (cache ?st1)
        query level (fst ?h) ?params None)))"
    by (intro cache_search_results_ok) (simp_all add: service_inv_def)
  with inv1 have "service_inv (snd ?h)"
    unfolding st' by (simp add: service_inv_def)
  with acc show ?thesis by simp
qed

theorem C1_access_filter_witness:
  "service_inv (new_search_service demo_collection)
   \<and> map rid (report_results (fst (hybrid_search demo_services
                 (new_search_service demo_collection) ''alpha'' 1 30 10 0.7 0.3))) = [''d1_0'']
   \<and> list_all (has_access 1) (report_results (fst (hybrid_search demo_services
                 (new_search_service demo_collection) ''alpha'' 1 30 10 0.7 0.3)))"
proof -
  have i: "service_inv (new_search_service demo_collection)" by (rule new_search_service_inv)
  have e: "map rid (report_results (fst (hybrid_search demo_services
                 (new_search_service demo_collection) ''alpha'' 1 30 10 0.7 0.3))) = [''d1_0'']"
    by code_simp
  from C1_access_filter [OF i, of demo_services "''alpha''" 1 30 10 "0.7" "0.3"] i e
  show ?thesis by (simp add: list_all_iff)
qed

subsection \<open>The BM25 index and the clearance level\<close>

text \<open>
  C4 at a concrete run. The collection holds a chunk at level 1 and one at level 50. A
  new service first serves a query at clearance 1; the index it builds holds the level-1
  chunk only. A later query at clearance 100 finds \<open>_bm25_initialized\<close> set and scores
  against that same index: the level-50 chunk, visible at clearance 100, is not in it,
  and the BM25 leg cannot return it. A new service asked at clearance 100 indexes both.
\<close>

theorem C4_index_of_first_level_reused:
  "bm25_docs (ensure_bm25_initialized demo_services
       (snd (hybrid_search demo_services (new_search_service demo_collection)
               ''alpha'' 1 30 10 0.7 0.3)) 100)
     = Some [''alpha report'']
   \<and> map stored_document (filter (where_lte 100) demo_collection)
     = [''alpha report'', ''beta memo'']
   \<and> map rid (bm25_search demo_services
       (ensure_bm25_initialized demo_services
          (snd (hybrid_search demo_services (new_search_service demo_collection)
                  ''alpha'' 1 30 10 0.7 0.3)) 100) ''beta'' 100 30)
     = [''d1_0'']
   \<and> map rid (bm25_search demo_services
       (ensure_bm25_initialized demo_services (new_search_service demo_collection) 100)
       ''beta'' 100 30)
     = [''d2_0'', ''d1_0'']"
  by code_simp

subsection \<open>Write tasks and cache invalidation\<close>

















end
